theory Spec2Isabelle
  imports Main "HOL-Library.Word" "HOL-Library.Signed_Division"
begin

unbundle bit_operations_syntax

section \<open>AwkwardForth: the virtual machine of ForthMachine.cpp\<close>

text \<open>
  The development follows \<^verbatim>\<open>src/libawkward/forth/ForthMachine.cpp\<close>. The class template
  \<^verbatim>\<open>ForthMachineOf<T, I>\<close> is instantiated with \<open>I = int32_t\<close> and \<open>T = int32_t\<close> or
  \<open>int64_t\<close>: bytecodes are \<open>32 word\<close>, data-stack cells are \<open>'a word\<close> for an arbitrary
  width, and the \<open>int64_t\<close> arrays of the do-loop stack are \<open>64 word\<close>. The arithmetic
  \<open>+\<close>, \<open>-\<close>, \<open>*\<close> of words wraps around (two's complement), which is what the
  compiled code does where C++ leaves signed overflow undefined. Positions, depths and
  counters are \<open>int\<close>.
\<close>

subsection \<open>Instruction values\<close>

type_synonym bytecode = "32 word"

definition READ_DIRECT :: bytecode where "READ_DIRECT = 1"
definition READ_REPEATED :: bytecode where "READ_REPEATED = 2"
definition READ_BIGENDIAN :: bytecode where "READ_BIGENDIAN = 4"
definition READ_MASK :: bytecode where "READ_MASK = NOT (- 0x80) AND (- 0x8)"
definition READ_BOOL :: bytecode where "READ_BOOL = 0x8 * 1"
definition READ_INT8 :: bytecode where "READ_INT8 = 0x8 * 2"
definition READ_INT16 :: bytecode where "READ_INT16 = 0x8 * 3"
definition READ_INT32 :: bytecode where "READ_INT32 = 0x8 * 4"
definition READ_INT64 :: bytecode where "READ_INT64 = 0x8 * 5"
definition READ_INTP :: bytecode where "READ_INTP = 0x8 * 6"
definition READ_UINT8 :: bytecode where "READ_UINT8 = 0x8 * 7"
definition READ_UINT16 :: bytecode where "READ_UINT16 = 0x8 * 8"
definition READ_UINT32 :: bytecode where "READ_UINT32 = 0x8 * 9"
definition READ_UINT64 :: bytecode where "READ_UINT64 = 0x8 * 10"
definition READ_UINTP :: bytecode where "READ_UINTP = 0x8 * 11"
definition READ_FLOAT32 :: bytecode where "READ_FLOAT32 = 0x8 * 12"
definition READ_FLOAT64 :: bytecode where "READ_FLOAT64 = 0x8 * 13"

definition CODE_LITERAL :: bytecode where "CODE_LITERAL = 0"
definition CODE_HALT :: bytecode where "CODE_HALT = 1"
definition CODE_PAUSE :: bytecode where "CODE_PAUSE = 2"
definition CODE_IF :: bytecode where "CODE_IF = 3"
definition CODE_IF_ELSE :: bytecode where "CODE_IF_ELSE = 4"
definition CODE_DO :: bytecode where "CODE_DO = 5"
definition CODE_DO_STEP :: bytecode where "CODE_DO_STEP = 6"
definition CODE_AGAIN :: bytecode where "CODE_AGAIN = 7"
definition CODE_UNTIL :: bytecode where "CODE_UNTIL = 8"
definition CODE_WHILE :: bytecode where "CODE_WHILE = 9"
definition CODE_EXIT :: bytecode where "CODE_EXIT = 10"
definition CODE_PUT :: bytecode where "CODE_PUT = 11"
definition CODE_INC :: bytecode where "CODE_INC = 12"
definition CODE_GET :: bytecode where "CODE_GET = 13"
definition CODE_LEN_INPUT :: bytecode where "CODE_LEN_INPUT = 14"
definition CODE_POS :: bytecode where "CODE_POS = 15"
definition CODE_END :: bytecode where "CODE_END = 16"
definition CODE_SEEK :: bytecode where "CODE_SEEK = 17"
definition CODE_SKIP :: bytecode where "CODE_SKIP = 18"
definition CODE_WRITE :: bytecode where "CODE_WRITE = 19"
definition CODE_LEN_OUTPUT :: bytecode where "CODE_LEN_OUTPUT = 20"
definition CODE_REWIND :: bytecode where "CODE_REWIND = 21"
definition CODE_I :: bytecode where "CODE_I = 22"
definition CODE_J :: bytecode where "CODE_J = 23"
definition CODE_K :: bytecode where "CODE_K = 24"
definition CODE_DUP :: bytecode where "CODE_DUP = 25"
definition CODE_DROP :: bytecode where "CODE_DROP = 26"
definition CODE_SWAP :: bytecode where "CODE_SWAP = 27"
definition CODE_OVER :: bytecode where "CODE_OVER = 28"
definition CODE_ROT :: bytecode where "CODE_ROT = 29"
definition CODE_NIP :: bytecode where "CODE_NIP = 30"
definition CODE_TUCK :: bytecode where "CODE_TUCK = 31"
definition CODE_ADD :: bytecode where "CODE_ADD = 32"
definition CODE_SUB :: bytecode where "CODE_SUB = 33"
definition CODE_MUL :: bytecode where "CODE_MUL = 34"
definition CODE_DIV :: bytecode where "CODE_DIV = 35"
definition CODE_MOD :: bytecode where "CODE_MOD = 36"
definition CODE_DIVMOD :: bytecode where "CODE_DIVMOD = 37"
definition CODE_NEGATE :: bytecode where "CODE_NEGATE = 38"
definition CODE_ADD1 :: bytecode where "CODE_ADD1 = 39"
definition CODE_SUB1 :: bytecode where "CODE_SUB1 = 40"
definition CODE_ABS :: bytecode where "CODE_ABS = 41"
definition CODE_MIN :: bytecode where "CODE_MIN = 42"
definition CODE_MAX :: bytecode where "CODE_MAX = 43"
definition CODE_EQ :: bytecode where "CODE_EQ = 44"
definition CODE_NE :: bytecode where "CODE_NE = 45"
definition CODE_GT :: bytecode where "CODE_GT = 46"
definition CODE_GE :: bytecode where "CODE_GE = 47"
definition CODE_LT :: bytecode where "CODE_LT = 48"
definition CODE_LE :: bytecode where "CODE_LE = 49"
definition CODE_EQ0 :: bytecode where "CODE_EQ0 = 50"
definition CODE_INVERT :: bytecode where "CODE_INVERT = 51"
definition CODE_AND :: bytecode where "CODE_AND = 52"
definition CODE_OR :: bytecode where "CODE_OR = 53"
definition CODE_XOR :: bytecode where "CODE_XOR = 54"
definition CODE_LSHIFT :: bytecode where "CODE_LSHIFT = 55"
definition CODE_RSHIFT :: bytecode where "CODE_RSHIFT = 56"
definition CODE_FALSE :: bytecode where "CODE_FALSE = 57"
definition CODE_TRUE :: bytecode where "CODE_TRUE = 58"

definition BOUND_DICTIONARY :: bytecode where "BOUND_DICTIONARY = 59"

lemmas READ_defs =
  READ_DIRECT_def READ_REPEATED_def READ_BIGENDIAN_def READ_MASK_def READ_BOOL_def
  READ_INT8_def READ_INT16_def READ_INT32_def READ_INT64_def READ_INTP_def READ_UINT8_def
  READ_UINT16_def READ_UINT32_def READ_UINT64_def READ_UINTP_def READ_FLOAT32_def
  READ_FLOAT64_def

lemmas CODE_defs =
  CODE_LITERAL_def CODE_HALT_def CODE_PAUSE_def CODE_IF_def CODE_IF_ELSE_def CODE_DO_def
  CODE_DO_STEP_def CODE_AGAIN_def CODE_UNTIL_def CODE_WHILE_def CODE_EXIT_def CODE_PUT_def
  CODE_INC_def CODE_GET_def CODE_LEN_INPUT_def CODE_POS_def CODE_END_def CODE_SEEK_def
  CODE_SKIP_def CODE_WRITE_def CODE_LEN_OUTPUT_def CODE_REWIND_def CODE_I_def CODE_J_def
  CODE_K_def CODE_DUP_def CODE_DROP_def CODE_SWAP_def CODE_OVER_def CODE_ROT_def
  CODE_NIP_def CODE_TUCK_def CODE_ADD_def CODE_SUB_def CODE_MUL_def CODE_DIV_def
  CODE_MOD_def CODE_DIVMOD_def CODE_NEGATE_def CODE_ADD1_def CODE_SUB1_def CODE_ABS_def
  CODE_MIN_def CODE_MAX_def CODE_EQ_def CODE_NE_def CODE_GT_def CODE_GE_def CODE_LT_def
  CODE_LE_def CODE_EQ0_def CODE_INVERT_def CODE_AND_def CODE_OR_def CODE_XOR_def
  CODE_LSHIFT_def CODE_RSHIFT_def CODE_FALSE_def CODE_TRUE_def BOUND_DICTIONARY_def

subsection \<open>Runtime errors and output types\<close>

text \<open>
  \<^verbatim>\<open>util::ForthError\<close> and \<^verbatim>\<open>util::dtype\<close> are declared in headers that are not among the
  sources. The error values are the ones \<^verbatim>\<open>maybe_throw\<close> switches over; the dtypes are the
  values of the table \<^verbatim>\<open>output_dtype_words_\<close>, the only ones a compiled machine holds.
\<close>

datatype ForthError =
    none | not_ready | is_done | user_halt | recursion_depth_exceeded
  | stack_underflow | stack_overflow | read_beyond | seek_beyond | skip_beyond
  | rewind_beyond | division_by_zero

datatype dtype =
    boolean | int8 | int16 | int32 | int64 | uint8 | uint16 | uint32 | uint64
  | float32 | float64

subsection \<open>Cell arithmetic\<close>

text \<open>
  C++ \<open>/\<close> and \<open>%\<close> truncate towards zero. They are undefined for a zero divisor and
  for the most negative value divided by \<open>-1\<close>; the instructions below test for these
  before they divide.
\<close>

definition cpp_div :: "'a::len word \<Rightarrow> 'a word \<Rightarrow> 'a word" where
  "cpp_div a b = word_of_int (sint a sdiv sint b)"

definition cpp_rem :: "'a::len word \<Rightarrow> 'a word \<Rightarrow> 'a word" where
  "cpp_rem a b = word_of_int (sint a smod sint b)"

definition division_overflows :: "'a::len word \<Rightarrow> 'a word \<Rightarrow> bool" where
  "division_overflows a b \<longleftrightarrow> sint a = - (2 ^ (LENGTH('a) - 1)) \<and> b = - 1"

text \<open>
  \<^verbatim>\<open>T tmp = pair[0] / pair[1];
  pair[0] = tmp * pair[1] == pair[0] ? tmp : tmp - ((pair[0] < 0) ^ (pair[1] < 0));\<close>
\<close>

definition forth_div :: "'a::len word \<Rightarrow> 'a word \<Rightarrow> 'a word" where
  "forth_div a b =
     (let tmp = cpp_div a b
      in if tmp * b = a then tmp else tmp - of_bool ((a <s 0) \<noteq> (b <s 0)))"

text \<open>\<^verbatim>\<open>pair[0] = (pair[1] + (pair[0] % pair[1])) % pair[1];\<close>\<close>

definition forth_mod :: "'a::len word \<Rightarrow> 'a word \<Rightarrow> 'a word" where
  "forth_mod a b = cpp_rem (b + cpp_rem a b) b"

subsection \<open>The machine\<close>

text \<open>
  The fields of \<^verbatim>\<open>ForthMachineOf\<close>. The data stack \<^verbatim>\<open>stack_buffer_[0 .. stack_depth_)\<close>
  is the list \<open>stack\<close> with the top cell first; the recursion stack
  \<^verbatim>\<open>current_which_/current_where_[0 .. recursion_current_depth_)\<close> is the list \<open>frames\<close>
  of pairs (which, where), innermost first; \<^verbatim>\<open>recursion_target_depth_\<close> (a
  \<^verbatim>\<open>std::stack\<close>) and the do-loop stack have their top first as well. Input buffers are
  values of a type parameter; an output buffer is known by the dtype and the initial
  size it was made with. The timing counter and the \<^verbatim>\<open>double\<close> resize factor are left out.
\<close>

datatype output_buffer = ForthOutputBufferOf dtype int

record do_frame =
  do_abs_recursion_depth :: int
  do_stop :: "64 word"
  do_i :: "64 word"
  do_loop_is_step :: bool

record ('c, 'i) machine =
  bytecodes :: "bytecode list"
  bytecodes_offsets :: "int list"
  variable_names :: "string list"
  variables :: "'c list"
  input_names :: "string list"
  output_names :: "string list"
  output_dtypes :: "dtype list"
  dictionary_names :: "string list"
  dictionary_bytecodes :: "bytecode list"
  output_initial_size :: int
  stack_max_depth :: int
  recursion_max_depth :: int
  stack :: "'c list"
  current_inputs :: "'i list"
  current_outputs :: "output_buffer list"
  is_ready :: bool
  frames :: "(int \<times> int) list"
  recursion_target_depth :: "int list"
  do_frames :: "do_frame list"
  current_error :: ForthError
  count_instructions :: int

text \<open>Reading a C++ array or vector at an \<^verbatim>\<open>int64_t\<close> index; out of range is \<open>None\<close>.\<close>

definition at_index :: "'x list \<Rightarrow> int \<Rightarrow> 'x option" where
  "at_index xs i = (if 0 \<le> i \<and> i < int (length xs) then Some (xs ! nat i) else None)"

subsubsection \<open>The inline helpers of ForthMachine.h\<close>

text \<open>
  Modelled from the spec: the header \<^verbatim>\<open>awkward/forth/ForthMachine.h\<close>, which holds the
  inline accessors that \<^verbatim>\<open>internal_run\<close> calls, is not among the sources. They follow
  the spec's data model (section 3: the recursion stack of (segment, where) pairs, the
  do-loop stack of \<open>{abs_recursion_depth, stop, i, is_step_flag}\<close>, the fixed-capacity
  data stack) and section 6 (\<open>is_done\<close>: no segments on the recursion stack).
\<close>

definition recursion_current_depth :: "('c, 'i) machine \<Rightarrow> int" where
  "recursion_current_depth m = int (length (frames m))"

definition do_current_depth :: "('c, 'i) machine \<Rightarrow> int" where
  "do_current_depth m = int (length (do_frames m))"

definition machine_is_done :: "('c, 'i) machine \<Rightarrow> bool" where
  "machine_is_done m \<longleftrightarrow> frames m = []"

definition stack_cannot_push :: "('c, 'i) machine \<Rightarrow> bool" where
  "stack_cannot_push m \<longleftrightarrow> int (length (stack m)) = stack_max_depth m"

definition stack_push :: "'c \<Rightarrow> ('c, 'i) machine \<Rightarrow> ('c, 'i) machine" where
  "stack_push v m = m\<lparr>stack := v # stack m\<rparr>"

definition bytecodes_pointer_push :: "int \<Rightarrow> ('c, 'i) machine \<Rightarrow> ('c, 'i) machine" where
  "bytecodes_pointer_push which m = m\<lparr>frames := (which, 0) # frames m\<rparr>"

definition bytecodes_pointer_pop :: "('c, 'i) machine \<Rightarrow> ('c, 'i) machine" where
  "bytecodes_pointer_pop m = m\<lparr>frames := tl (frames m)\<rparr>"

definition where_add :: "int \<Rightarrow> ('c, 'i) machine \<Rightarrow> ('c, 'i) machine" where
  "where_add n m =
     (case frames m of
        [] \<Rightarrow> m
      | (which, wh) # fs \<Rightarrow> m\<lparr>frames := (which, wh + n) # fs\<rparr>)"

definition segment_length :: "('c, 'i) machine \<Rightarrow> int \<Rightarrow> int option" where
  "segment_length m which =
     (case (at_index (bytecodes_offsets m) (which + 1), at_index (bytecodes_offsets m) which) of
        (Some stop, Some start) \<Rightarrow> Some (stop - start)
      | _ \<Rightarrow> None)"

definition is_segment_done :: "('c, 'i) machine \<Rightarrow> bool option" where
  "is_segment_done m =
     (case frames m of
        [] \<Rightarrow> None
      | (which, wh) # fs \<Rightarrow>
          (case segment_length m which of
             None \<Rightarrow> None
           | Some n \<Rightarrow> Some (\<not> wh < n)))"

definition bytecode_get :: "('c, 'i) machine \<Rightarrow> bytecode option" where
  "bytecode_get m =
     (case frames m of
        [] \<Rightarrow> None
      | (which, wh) # fs \<Rightarrow>
          (case at_index (bytecodes_offsets m) which of
             None \<Rightarrow> None
           | Some start \<Rightarrow> at_index (bytecodes m) (start + wh)))"

definition do_loop_push :: "64 word \<Rightarrow> 64 word \<Rightarrow> ('c, 'i) machine \<Rightarrow> ('c, 'i) machine" where
  "do_loop_push start stop m =
     m\<lparr>do_frames :=
         \<lparr>do_abs_recursion_depth = recursion_current_depth m, do_stop = stop, do_i = start,
          do_loop_is_step = False\<rparr> # do_frames m\<rparr>"

definition do_steploop_push :: "64 word \<Rightarrow> 64 word \<Rightarrow> ('c, 'i) machine \<Rightarrow> ('c, 'i) machine" where
  "do_steploop_push start stop m =
     m\<lparr>do_frames :=
         \<lparr>do_abs_recursion_depth = recursion_current_depth m, do_stop = stop, do_i = start,
          do_loop_is_step = True\<rparr> # do_frames m\<rparr>"

text \<open>
  \<^verbatim>\<open>do_current_depth_ != 0 && do_abs_recursion_depth() == recursion_current_depth_\<close>: the
  innermost do-frame belongs to the current recursion depth.
\<close>

definition do_frame_is_current :: "('c, 'i) machine \<Rightarrow> bool" where
  "do_frame_is_current m \<longleftrightarrow>
     (case do_frames m of
        [] \<Rightarrow> False
      | d # ds \<Rightarrow> do_abs_recursion_depth d = recursion_current_depth m)"

definition do_i_add :: "64 word \<Rightarrow> ('c, 'i) machine \<Rightarrow> ('c, 'i) machine" where
  "do_i_add n m =
     (case do_frames m of
        [] \<Rightarrow> m
      | d # ds \<Rightarrow> m\<lparr>do_frames := d\<lparr>do_i := do_i d + n\<rparr> # ds\<rparr>)"

subsection \<open>One instruction\<close>

text \<open>
  What one pass through the body of the inner loop of \<^verbatim>\<open>internal_run\<close> can do:
  \<open>Break\<close> leaves the \<^verbatim>\<open>switch\<close> (the instruction is then counted), \<open>Loop_again\<close> goes
  back to the test of the inner loop, \<open>Return\<close> leaves \<^verbatim>\<open>internal_run\<close>,
  \<open>Goto_after_end_of_segment\<close> is the \<^verbatim>\<open>goto\<close> of \<^verbatim>\<open>CODE_EXIT\<close>. \<open>Undefined_behaviour\<close>
  stands for an access outside an array and for the arithmetic C++ leaves undefined.
  \<open>Unmodelled_io\<close> is the outcome of the instructions that work on an input or output
  buffer: \<^verbatim>\<open>ForthInputBuffer\<close> and \<^verbatim>\<open>ForthOutputBuffer\<close> are not among the sources.
\<close>

datatype 'm outcome =
    Break 'm
  | Loop_again 'm
  | Return 'm
  | Goto_after_end_of_segment 'm
  | Undefined_behaviour
  | Unmodelled_io

type_synonym ('a, 'i) op = "('a word, 'i) machine \<Rightarrow> ('a word, 'i) machine outcome"

definition raise_error :: "ForthError \<Rightarrow> ('c, 'i) machine \<Rightarrow> ('c, 'i) machine outcome" where
  "raise_error e m = Return (m\<lparr>current_error := e\<rparr>)"

text \<open>\<^verbatim>\<open>if (stack_cannot_push()) { ... stack_overflow; return; }  stack_push(v);\<close>\<close>

definition push_checked :: "'c \<Rightarrow> ('c, 'i) machine \<Rightarrow> ('c, 'i) machine outcome" where
  "push_checked v m =
     (if stack_cannot_push m then raise_error stack_overflow m else Break (stack_push v m))"

text \<open>
  \<^verbatim>\<open>if (stack_cannot_pop2()) { ... }  T* pair = stack_pop2_before_pushing1();
  pair[0] = f(pair[0], pair[1]);\<close> where \<open>pair[1]\<close> is the top cell.
\<close>

definition binary_op :: "('c \<Rightarrow> 'c \<Rightarrow> 'c) \<Rightarrow> ('c, 'i) machine \<Rightarrow> ('c, 'i) machine outcome" where
  "binary_op f m =
     (case stack m of
        b # a # rest \<Rightarrow> Break (m\<lparr>stack := f a b # rest\<rparr>)
      | _ \<Rightarrow> raise_error stack_underflow m)"

text \<open>\<^verbatim>\<open>if (stack_cannot_pop()) { ... }  T* top = stack_peek();  *top = f(*top);\<close>\<close>

definition unary_op :: "('c \<Rightarrow> 'c) \<Rightarrow> ('c, 'i) machine \<Rightarrow> ('c, 'i) machine outcome" where
  "unary_op f m =
     (case stack m of
        a # rest \<Rightarrow> Break (m\<lparr>stack := f a # rest\<rparr>)
      | [] \<Rightarrow> raise_error stack_underflow m)"

definition forth_bool :: "bool \<Rightarrow> 'a::len word" where
  "forth_bool p = (if p then - 1 else 0)"

definition op_literal :: "('a::len, 'i) op" where
  "op_literal m =
     (case bytecode_get m of
        None \<Rightarrow> Undefined_behaviour
      | Some num \<Rightarrow> push_checked (scast num) (where_add 1 m))"

definition op_halt :: "('a::len, 'i) op" where
  "op_halt m =
     Return (m\<lparr>is_ready := False,
               frames := [],
               recursion_target_depth :=
                 drop (length (recursion_target_depth m) - 1) (recursion_target_depth m),
               do_frames := [],
               current_error := user_halt,
               count_instructions := count_instructions m + 1\<rparr>)"

text \<open>
  The end of one step of a \<open>do ... loop\<close> or \<open>do ... +loop\<close>, as \<^verbatim>\<open>CODE_PAUSE\<close> and the
  code after the label \<^verbatim>\<open>after_end_of_segment\<close> both have it: \<open>None\<close> is the return
  with \<open>stack_underflow\<close>.
\<close>

definition do_loop_advance :: "('a::len word, 'i) machine \<Rightarrow> ('a word, 'i) machine + ('a word, 'i) machine" where
  "do_loop_advance m =
     (if do_frame_is_current m then
        (if do_loop_is_step (hd (do_frames m)) then
           (case stack m of
              [] \<Rightarrow> Inl (m\<lparr>current_error := stack_underflow\<rparr>)
            | v # rest \<Rightarrow> Inr (do_i_add (scast v) (m\<lparr>stack := rest\<rparr>)))
         else Inr (do_i_add 1 m))
      else Inr m)"

definition op_pause :: "('a::len, 'i) op" where
  "op_pause m =
     (case is_segment_done m of
        None \<Rightarrow> Undefined_behaviour
      | Some False \<Rightarrow> Return (m\<lparr>count_instructions := count_instructions m + 1\<rparr>)
      | Some True \<Rightarrow>
          (case do_loop_advance (bytecodes_pointer_pop m) of
             Inl m' \<Rightarrow> Return m'
           | Inr m' \<Rightarrow> Return (m'\<lparr>count_instructions := count_instructions m' + 1\<rparr>)))"

definition op_if :: "('a::len, 'i) op" where
  "op_if m =
     (case stack m of
        [] \<Rightarrow> raise_error stack_underflow m
      | p # rest \<Rightarrow>
          (if p = 0 then Break (where_add 1 (m\<lparr>stack := rest\<rparr>))
           else Break (m\<lparr>stack := rest\<rparr>)))"

definition op_if_else :: "('a::len, 'i) op" where
  "op_if_else m =
     (case stack m of
        [] \<Rightarrow> raise_error stack_underflow m
      | p # rest \<Rightarrow>
          (let m1 = m\<lparr>stack := rest\<rparr>
           in if p = 0 then Break (where_add 1 m1)
              else (case bytecode_get m1 of
                      None \<Rightarrow> Undefined_behaviour
                    | Some consequent \<Rightarrow>
                        (let m2 = where_add 2 m1
                         in if recursion_current_depth m2 = recursion_max_depth m2
                            then raise_error recursion_depth_exceeded m2
                            else Break ((bytecodes_pointer_push
                                           (sint (consequent - BOUND_DICTIONARY)) m2)
                                        \<lparr>count_instructions := count_instructions m2 + 1\<rparr>)))))"

definition op_do :: "bool \<Rightarrow> ('a::len, 'i) op" where
  "op_do is_step m =
     (case stack m of
        start # stop # rest \<Rightarrow>
          (let m1 = m\<lparr>stack := rest\<rparr>
           in if do_current_depth m1 = recursion_max_depth m1
              then raise_error recursion_depth_exceeded m1
              else Break ((if is_step then do_steploop_push else do_loop_push)
                            (scast start) (scast stop) m1))
      | _ \<Rightarrow> raise_error stack_underflow m)"

definition op_again :: "('a::len, 'i) op" where
  "op_again m = Break (where_add (- 2) m)"

definition op_until :: "('a::len, 'i) op" where
  "op_until m =
     (case stack m of
        [] \<Rightarrow> raise_error stack_underflow m
      | p # rest \<Rightarrow>
          (if p = 0 then Break (where_add (- 2) (m\<lparr>stack := rest\<rparr>))
           else Break (m\<lparr>stack := rest\<rparr>)))"

definition op_while :: "('a::len, 'i) op" where
  "op_while m =
     (case stack m of
        [] \<Rightarrow> raise_error stack_underflow m
      | p # rest \<Rightarrow>
          (let m1 = m\<lparr>stack := rest\<rparr>
           in if p = 0 then Break (where_add 1 m1)
              else (case bytecode_get m1 of
                      None \<Rightarrow> Undefined_behaviour
                    | Some posttest \<Rightarrow>
                        (let m2 = where_add (- 2) m1
                         in if recursion_current_depth m2 = recursion_max_depth m2
                            then raise_error recursion_depth_exceeded m2
                            else Break ((bytecodes_pointer_push
                                           (sint (posttest - BOUND_DICTIONARY)) m2)
                                        \<lparr>count_instructions := count_instructions m2 + 1\<rparr>)))))"

text \<open>
  \<^verbatim>\<open>while (do_current_depth_ != 0 && do_abs_recursion_depth() != recursion_current_depth_)
    do_current_depth_--;\<close>
\<close>

fun prune_do_frames :: "int \<Rightarrow> do_frame list \<Rightarrow> do_frame list" where
  "prune_do_frames depth [] = []"
| "prune_do_frames depth (d # ds) =
     (if do_abs_recursion_depth d \<noteq> depth then prune_do_frames depth ds else d # ds)"

definition op_exit :: "bool \<Rightarrow> ('a::len, 'i) op" where
  "op_exit single_step m =
     (case bytecode_get m of
        None \<Rightarrow> Undefined_behaviour
      | Some exitdepth \<Rightarrow>
          (let m1 = where_add 1 m
           in if sint exitdepth < 0 \<or> recursion_current_depth m1 < sint exitdepth
              then Undefined_behaviour
              else
                (let m2 = m1\<lparr>frames := drop (nat (sint exitdepth)) (frames m1)\<rparr>;
                     m3 = m2\<lparr>do_frames := prune_do_frames (recursion_current_depth m2) (do_frames m2),
                             count_instructions := count_instructions m2 + 1\<rparr>
                 in if single_step then
                      (case is_segment_done m3 of
                         None \<Rightarrow> Undefined_behaviour
                       | Some True \<Rightarrow> Return (bytecodes_pointer_pop m3)
                       | Some False \<Rightarrow> Return m3)
                    else Goto_after_end_of_segment m3)))"

definition op_put :: "('a::len, 'i) op" where
  "op_put m =
     (case bytecode_get m of
        None \<Rightarrow> Undefined_behaviour
      | Some num \<Rightarrow>
          (let m1 = where_add 1 m
           in case stack m1 of
                [] \<Rightarrow> raise_error stack_underflow m1
              | v # rest \<Rightarrow>
                  (if 0 \<le> sint num \<and> sint num < int (length (variables m1))
                   then Break (m1\<lparr>stack := rest,
                                   variables := (variables m1)[nat (sint num) := v]\<rparr>)
                   else Undefined_behaviour)))"

definition op_inc :: "('a::len, 'i) op" where
  "op_inc m =
     (case bytecode_get m of
        None \<Rightarrow> Undefined_behaviour
      | Some num \<Rightarrow>
          (let m1 = where_add 1 m
           in case stack m1 of
                [] \<Rightarrow> raise_error stack_underflow m1
              | v # rest \<Rightarrow>
                  (case at_index (variables m1) (sint num) of
                     None \<Rightarrow> Undefined_behaviour
                   | Some old \<Rightarrow>
                       Break (m1\<lparr>stack := rest,
                                  variables := (variables m1)[nat (sint num) := old + v]\<rparr>))))"

definition op_get :: "('a::len, 'i) op" where
  "op_get m =
     (case bytecode_get m of
        None \<Rightarrow> Undefined_behaviour
      | Some num \<Rightarrow>
          (let m1 = where_add 1 m
           in if stack_cannot_push m1 then raise_error stack_overflow m1
              else (case at_index (variables m1) (sint num) of
                      None \<Rightarrow> Undefined_behaviour
                    | Some v \<Rightarrow> Break (stack_push v m1))))"

text \<open>\<^verbatim>\<open>stack_push((I)do_i())\<close>, and \<^verbatim>\<open>do_j()\<close>, \<^verbatim>\<open>do_k()\<close> for the frames below.\<close>

definition op_loop_index :: "int \<Rightarrow> ('a::len, 'i) op" where
  "op_loop_index n m =
     (if stack_cannot_push m then raise_error stack_overflow m
      else (case at_index (do_frames m) n of
              None \<Rightarrow> Undefined_behaviour
            | Some d \<Rightarrow> Break (stack_push (scast (scast (do_i d) :: bytecode)) m)))"

definition op_dup :: "('a::len, 'i) op" where
  "op_dup m =
     (case stack m of
        [] \<Rightarrow> raise_error stack_underflow m
      | a # rest \<Rightarrow> push_checked a m)"

definition op_drop :: "('a::len, 'i) op" where
  "op_drop m =
     (case stack m of
        [] \<Rightarrow> raise_error stack_underflow m
      | a # rest \<Rightarrow> Break (m\<lparr>stack := rest\<rparr>))"

definition op_swap :: "('a::len, 'i) op" where
  "op_swap m =
     (case stack m of
        b # a # rest \<Rightarrow> Break (m\<lparr>stack := a # b # rest\<rparr>)
      | _ \<Rightarrow> raise_error stack_underflow m)"

definition op_over :: "('a::len, 'i) op" where
  "op_over m =
     (case stack m of
        b # a # rest \<Rightarrow> push_checked a m
      | _ \<Rightarrow> raise_error stack_underflow m)"

definition op_rot :: "('a::len, 'i) op" where
  "op_rot m =
     (case stack m of
        c # b # a # rest \<Rightarrow> Break (m\<lparr>stack := a # c # b # rest\<rparr>)
      | _ \<Rightarrow> raise_error stack_underflow m)"

definition op_nip :: "('a::len, 'i) op" where
  "op_nip m =
     (case stack m of
        b # a # rest \<Rightarrow> Break (m\<lparr>stack := b # rest\<rparr>)
      | _ \<Rightarrow> raise_error stack_underflow m)"

definition op_tuck :: "('a::len, 'i) op" where
  "op_tuck m =
     (case stack m of
        b # a # rest \<Rightarrow>
          (if stack_cannot_push m then raise_error stack_overflow m
           else Break (m\<lparr>stack := b # a # b # rest\<rparr>))
      | _ \<Rightarrow> raise_error stack_underflow m)"

text \<open>
  \<^verbatim>\<open>CODE_DIV\<close> and \<^verbatim>\<open>CODE_MOD\<close> take the pair with \<^verbatim>\<open>stack_pop2_before_pushing1\<close> before
  they test the divisor: the divisor is already popped when \<open>division_by_zero\<close> is
  raised. \<^verbatim>\<open>CODE_DIVMOD\<close> reads both cells in place.
\<close>

definition op_div :: "('a::len, 'i) op" where
  "op_div m =
     (case stack m of
        b # a # rest \<Rightarrow>
          (if b = 0 then raise_error division_by_zero (m\<lparr>stack := a # rest\<rparr>)
           else if division_overflows a b then Undefined_behaviour
           else Break (m\<lparr>stack := forth_div a b # rest\<rparr>))
      | _ \<Rightarrow> raise_error stack_underflow m)"

definition op_mod :: "('a::len, 'i) op" where
  "op_mod m =
     (case stack m of
        b # a # rest \<Rightarrow>
          (if b = 0 then raise_error division_by_zero (m\<lparr>stack := a # rest\<rparr>)
           else if division_overflows a b then Undefined_behaviour
           else Break (m\<lparr>stack := forth_mod a b # rest\<rparr>))
      | _ \<Rightarrow> raise_error stack_underflow m)"

definition op_divmod :: "('a::len, 'i) op" where
  "op_divmod m =
     (case stack m of
        two # one # rest \<Rightarrow>
          (if two = 0 then raise_error division_by_zero m
           else if division_overflows one two then Undefined_behaviour
           else Break (m\<lparr>stack := forth_div one two # forth_mod one two # rest\<rparr>))
      | _ \<Rightarrow> raise_error stack_underflow m)"

text \<open>
  \<^verbatim>\<open>pair[0] << pair[1]\<close> and \<^verbatim>\<open>pair[0] >> pair[1]\<close>. C++ leaves the shift undefined for
  a negative count and for one that is not less than the width; the compiled code
  shifts by the count modulo the width (the shift instructions of the processor take
  only the low bits of the count), and so does the model, as for the arithmetic that
  wraps around.
\<close>

definition op_shift :: "(nat \<Rightarrow> 'a word \<Rightarrow> 'a word) \<Rightarrow> ('a::len, 'i) op" where
  "op_shift f m =
     (case stack m of
        b # a # rest \<Rightarrow> Break (m\<lparr>stack := f (unat b mod LENGTH('a)) a # rest\<rparr>)
      | _ \<Rightarrow> raise_error stack_underflow m)"

text \<open>The \<^verbatim>\<open>switch (bytecode)\<close> of \<^verbatim>\<open>internal_run\<close>, in the order of its cases.\<close>

definition exec_builtin :: "bool \<Rightarrow> bytecode \<Rightarrow> ('a::len, 'i) op" where
  "exec_builtin single_step bytecode m =
     (if bytecode = CODE_LITERAL then op_literal m
      else if bytecode = CODE_HALT then op_halt m
      else if bytecode = CODE_PAUSE then op_pause m
      else if bytecode = CODE_IF then op_if m
      else if bytecode = CODE_IF_ELSE then op_if_else m
      else if bytecode = CODE_DO then op_do False m
      else if bytecode = CODE_DO_STEP then op_do True m
      else if bytecode = CODE_AGAIN then op_again m
      else if bytecode = CODE_UNTIL then op_until m
      else if bytecode = CODE_WHILE then op_while m
      else if bytecode = CODE_EXIT then op_exit single_step m
      else if bytecode = CODE_PUT then op_put m
      else if bytecode = CODE_INC then op_inc m
      else if bytecode = CODE_GET then op_get m
      else if bytecode = CODE_LEN_INPUT then Unmodelled_io
      else if bytecode = CODE_POS then Unmodelled_io
      else if bytecode = CODE_END then Unmodelled_io
      else if bytecode = CODE_SEEK then Unmodelled_io
      else if bytecode = CODE_SKIP then Unmodelled_io
      else if bytecode = CODE_WRITE then Unmodelled_io
      else if bytecode = CODE_LEN_OUTPUT then Unmodelled_io
      else if bytecode = CODE_REWIND then Unmodelled_io
      else if bytecode = CODE_I then op_loop_index 0 m
      else if bytecode = CODE_J then op_loop_index 1 m
      else if bytecode = CODE_K then op_loop_index 2 m
      else if bytecode = CODE_DUP then op_dup m
      else if bytecode = CODE_DROP then op_drop m
      else if bytecode = CODE_SWAP then op_swap m
      else if bytecode = CODE_OVER then op_over m
      else if bytecode = CODE_ROT then op_rot m
      else if bytecode = CODE_NIP then op_nip m
      else if bytecode = CODE_TUCK then op_tuck m
      else if bytecode = CODE_ADD then binary_op (\<lambda>a b. a + b) m
      else if bytecode = CODE_SUB then binary_op (\<lambda>a b. a - b) m
      else if bytecode = CODE_MUL then binary_op (\<lambda>a b. a * b) m
      else if bytecode = CODE_DIV then op_div m
      else if bytecode = CODE_MOD then op_mod m
      else if bytecode = CODE_DIVMOD then op_divmod m
      else if bytecode = CODE_NEGATE then unary_op (\<lambda>a. - a) m
      else if bytecode = CODE_ADD1 then unary_op (\<lambda>a. a + 1) m
      else if bytecode = CODE_SUB1 then unary_op (\<lambda>a. a - 1) m
      else if bytecode = CODE_ABS then unary_op (\<lambda>a. if a <s 0 then - a else a) m
      else if bytecode = CODE_MIN then binary_op (\<lambda>a b. if b <s a then b else a) m
      else if bytecode = CODE_MAX then binary_op (\<lambda>a b. if a <s b then b else a) m
      else if bytecode = CODE_EQ then binary_op (\<lambda>a b. forth_bool (a = b)) m
      else if bytecode = CODE_NE then binary_op (\<lambda>a b. forth_bool (a \<noteq> b)) m
      else if bytecode = CODE_GT then binary_op (\<lambda>a b. forth_bool (b <s a)) m
      else if bytecode = CODE_GE then binary_op (\<lambda>a b. forth_bool (b \<le>s a)) m
      else if bytecode = CODE_LT then binary_op (\<lambda>a b. forth_bool (a <s b)) m
      else if bytecode = CODE_LE then binary_op (\<lambda>a b. forth_bool (a \<le>s b)) m
      else if bytecode = CODE_EQ0 then unary_op (\<lambda>a. forth_bool (a = 0)) m
      else if bytecode = CODE_INVERT then unary_op (\<lambda>a. NOT a) m
      else if bytecode = CODE_AND then binary_op (\<lambda>a b. a AND b) m
      else if bytecode = CODE_OR then binary_op (\<lambda>a b. a OR b) m
      else if bytecode = CODE_XOR then binary_op (\<lambda>a b. a XOR b) m
      else if bytecode = CODE_LSHIFT then op_shift push_bit m
      else if bytecode = CODE_RSHIFT then op_shift signed_drop_bit m
      else if bytecode = CODE_FALSE then push_checked 0 m
      else if bytecode = CODE_TRUE then push_checked (- 1) m
      else Break m)"

text \<open>
  After the \<^verbatim>\<open>switch\<close>:
  \<^verbatim>\<open>count_instructions_++;
  if (single_step) { if (is_segment_done()) { bytecodes_pointer_pop(); } return; }\<close>
\<close>

definition end_of_instruction :: "bool \<Rightarrow> ('c, 'i) machine \<Rightarrow> ('c, 'i) machine outcome" where
  "end_of_instruction single_step m =
     (let m1 = m\<lparr>count_instructions := count_instructions m + 1\<rparr>
      in if single_step then
           (case is_segment_done m1 of
              None \<Rightarrow> Undefined_behaviour
            | Some True \<Rightarrow> Return (bytecodes_pointer_pop m1)
            | Some False \<Rightarrow> Return m1)
         else Loop_again m1)"

text \<open>
  The three-way branch on the fetched bytecode: a typed read (negative), a segment
  reference, or a builtin instruction.
\<close>

definition dispatch :: "bool \<Rightarrow> bytecode \<Rightarrow> ('a::len, 'i) op" where
  "dispatch single_step bytecode m =
     (case (if bytecode <s 0 then Unmodelled_io
            else if BOUND_DICTIONARY \<le>s bytecode then
              (if recursion_current_depth m = recursion_max_depth m
               then raise_error recursion_depth_exceeded m
               else Break (bytecodes_pointer_push (sint (bytecode - BOUND_DICTIONARY)) m))
            else exec_builtin single_step bytecode m) of
        Break m' \<Rightarrow> end_of_instruction single_step m'
      | other \<Rightarrow> other)"

text \<open>
  The body of the inner \<^verbatim>\<open>while\<close> loop: fetch the bytecode, step \<open>where\<close> forward
  unless a do-frame of this depth is open, end the do-loop when \<open>i >= stop\<close>, otherwise
  dispatch.
\<close>

definition instruction :: "bool \<Rightarrow> ('a::len, 'i) op" where
  "instruction single_step m =
     (case bytecode_get m of
        None \<Rightarrow> Undefined_behaviour
      | Some bytecode \<Rightarrow>
          (if \<not> do_frame_is_current m then dispatch single_step bytecode (where_add 1 m)
           else if do_stop (hd (do_frames m)) \<le>s do_i (hd (do_frames m))
           then Loop_again (where_add 1 (m\<lparr>do_frames := tl (do_frames m)\<rparr>))
           else dispatch single_step bytecode m))"

text \<open>
  From the label \<^verbatim>\<open>after_end_of_segment\<close> to the end of the outer loop's body: \<open>Inr\<close>
  goes on with the outer loop, \<open>Inl\<close> is the return with \<open>stack_underflow\<close>.
\<close>

definition after_end_of_segment :: "('a::len word, 'i) machine \<Rightarrow> (('a word, 'i) machine + ('a word, 'i) machine) option" where
  "after_end_of_segment m =
     (if frames m = [] then None else Some (do_loop_advance (bytecodes_pointer_pop m)))"

subsection \<open>The engine\<close>

text \<open>
  \<^verbatim>\<open>internal_run\<close> is two nested \<^verbatim>\<open>while\<close> loops, and a program may run forever
  (\<open>begin ... again\<close>). The model is a transition function on the point of control (at
  the test of the outer loop, or at the test of the inner loop) and the machine, run
  with fuel: \<open>None\<close> is fuel that ran out.
\<close>

datatype loop_point = Outer_loop | Inner_loop

text \<open>
  What a call of the interface comes back with: it returns (the \<^verbatim>\<open>ForthError\<close> it
  returns is then \<open>current_error\<close> of the machine), or it throws an exception (with the
  text that names it), or its behaviour is undefined or outside the model.
\<close>

datatype 'm engine_result = Returned 'm | Threw string 'm | Undefined | Unmodelled

datatype 'm transition = Goes_on loop_point 'm | Stops "'m engine_result"

definition transition :: "bool \<Rightarrow> int \<Rightarrow> loop_point \<Rightarrow> ('a::len word, 'i) machine \<Rightarrow> ('a word, 'i) machine transition" where
  "transition single_step recursion_target_depth_top pt m =
     (if pt = Outer_loop \<and> recursion_current_depth m = recursion_target_depth_top
      then Stops (Returned m)
      else
        (let leave = (\<lambda>m'. case after_end_of_segment m' of
                              None \<Rightarrow> Stops Undefined
                            | Some (Inl m'') \<Rightarrow> Stops (Returned m'')
                            | Some (Inr m'') \<Rightarrow> Goes_on Outer_loop m'')
         in case is_segment_done m of
              None \<Rightarrow> Stops Undefined
            | Some True \<Rightarrow> leave m
            | Some False \<Rightarrow>
                (case instruction single_step m of
                   Break m' \<Rightarrow> Goes_on Inner_loop m'
                 | Loop_again m' \<Rightarrow> Goes_on Inner_loop m'
                 | Return m' \<Rightarrow> Stops (Returned m')
                 | Goto_after_end_of_segment m' \<Rightarrow> leave m'
                 | Undefined_behaviour \<Rightarrow> Stops Undefined
                 | Unmodelled_io \<Rightarrow> Stops Unmodelled)))"

fun run_from :: "nat \<Rightarrow> bool \<Rightarrow> int \<Rightarrow> loop_point \<Rightarrow> ('a::len word, 'i) machine \<Rightarrow> ('a word, 'i) machine engine_result option" where
  "run_from 0 single_step target pt m = None"
| "run_from (Suc fuel) single_step target pt m =
     (case transition single_step target pt m of
        Stops r \<Rightarrow> Some r
      | Goes_on pt' m' \<Rightarrow> run_from fuel single_step target pt' m')"

definition internal_run :: "nat \<Rightarrow> bool \<Rightarrow> int \<Rightarrow> ('a::len word, 'i) machine \<Rightarrow> ('a word, 'i) machine engine_result option" where
  "internal_run fuel single_step recursion_target_depth_top m =
     run_from fuel single_step recursion_target_depth_top Outer_loop m"

subsection \<open>The public interface\<close>

definition reset :: "('a::len word, 'i) machine \<Rightarrow> ('a word, 'i) machine" where
  "reset m =
     m\<lparr>stack := [],
       variables := map (\<lambda>v. 0) (variables m),
       current_inputs := [],
       current_outputs := [],
       is_ready := False,
       frames := [],
       recursion_target_depth := [],
       do_frames := [],
       current_error := none\<rparr>"

text \<open>
  \<^verbatim>\<open>begin\<close> throws \<^verbatim>\<open>std::invalid_argument\<close> at the first declared input that the map does
  not hold; the machine has been reset by then, and the inputs found before are kept in
  \<^verbatim>\<open>current_inputs_\<close>. The push of the first frame writes \<^verbatim>\<open>current_which_[0]\<close>, which
  is outside the array when \<^verbatim>\<open>recursion_max_depth\<close> is not positive.
\<close>

fun find_inputs :: "(string \<rightharpoonup> 'i) \<Rightarrow> string list \<Rightarrow> 'i list \<Rightarrow> (string \<times> 'i list) + 'i list" where
  "find_inputs inputs [] found = Inr found"
| "find_inputs inputs (name # names) found =
     (case inputs name of
        None \<Rightarrow> Inl (name, found)
      | Some buf \<Rightarrow> find_inputs inputs names (found @ [buf]))"

definition make_outputs :: "('c, 'i) machine \<Rightarrow> output_buffer list" where
  "make_outputs m =
     map (\<lambda>i. ForthOutputBufferOf (output_dtypes m ! i) (output_initial_size m))
       [0 ..< length (output_names m)]"

definition machine_begin :: "(string \<rightharpoonup> 'i) \<Rightarrow> ('a::len word, 'i) machine \<Rightarrow> ('a word, 'i) machine engine_result" where
  "machine_begin inputs m =
     (let m1 = reset m
      in case find_inputs inputs (input_names m1) [] of
           Inl (name, found) \<Rightarrow>
             Threw (''AwkwardForth source code defines an input that was not provided: '' @ name)
               (m1\<lparr>current_inputs := found\<rparr>)
         | Inr found \<Rightarrow>
             (if length (output_dtypes m1) < length (output_names m1) then Undefined
              else if recursion_max_depth m1 \<le> 0 then Undefined
              else Returned ((bytecodes_pointer_push 0
                               (m1\<lparr>current_inputs := found,
                                    current_outputs := make_outputs m1,
                                    recursion_target_depth := [0]\<rparr>))
                             \<lparr>is_ready := True\<rparr>)))"

text \<open>
  The end of \<^verbatim>\<open>step\<close>, \<^verbatim>\<open>run\<close>, \<^verbatim>\<open>resume\<close> and \<^verbatim>\<open>call\<close>:
  \<^verbatim>\<open>if (recursion_current_depth_ == recursion_target_depth_.top()) recursion_target_depth_.pop();\<close>
\<close>

definition pop_target_depth :: "('c, 'i) machine \<Rightarrow> ('c, 'i) machine engine_result" where
  "pop_target_depth m =
     (case recursion_target_depth m of
        [] \<Rightarrow> Undefined
      | t # ts \<Rightarrow>
          (if recursion_current_depth m = t then Returned (m\<lparr>recursion_target_depth := ts\<rparr>)
           else Returned m))"

definition run_engine :: "nat \<Rightarrow> bool \<Rightarrow> ('a::len word, 'i) machine \<Rightarrow> ('a word, 'i) machine engine_result option" where
  "run_engine fuel single_step m =
     (case recursion_target_depth m of
        [] \<Rightarrow> Some Undefined
      | t # ts \<Rightarrow>
          (case internal_run fuel single_step t m of
             None \<Rightarrow> None
           | Some (Returned m') \<Rightarrow> Some (pop_target_depth m')
           | Some r \<Rightarrow> Some r))"

definition step :: "nat \<Rightarrow> ('a::len word, 'i) machine \<Rightarrow> ('a word, 'i) machine engine_result option" where
  "step fuel m =
     (if \<not> is_ready m then Some (Returned (m\<lparr>current_error := not_ready\<rparr>))
      else if machine_is_done m then Some (Returned (m\<lparr>current_error := is_done\<rparr>))
      else if current_error m \<noteq> none then Some (Returned m)
      else run_engine fuel True m)"

definition resume :: "nat \<Rightarrow> ('a::len word, 'i) machine \<Rightarrow> ('a word, 'i) machine engine_result option" where
  "resume fuel m =
     (if \<not> is_ready m then Some (Returned (m\<lparr>current_error := not_ready\<rparr>))
      else if machine_is_done m then Some (Returned (m\<lparr>current_error := is_done\<rparr>))
      else if current_error m \<noteq> none then Some (Returned m)
      else run_engine fuel False m)"

definition run :: "nat \<Rightarrow> (string \<rightharpoonup> 'i) \<Rightarrow> ('a::len word, 'i) machine \<Rightarrow> ('a word, 'i) machine engine_result option" where
  "run fuel inputs m =
     (case machine_begin inputs m of
        Returned m1 \<Rightarrow> run_engine fuel False m1
      | r \<Rightarrow> Some r)"


section \<open>The compiler\<close>

subsection \<open>Word tables\<close>

definition newline_token :: string where "newline_token = [CHR 0x0A]"
definition backslash_token :: string where "backslash_token = [CHR 0x5C]"

definition reserved_words :: "string list" where
  "reserved_words =
     [''('', '')'', backslash_token, newline_token, '''',
      '':'', '';'', ''recurse'',
      ''variable'', ''input'', ''output'',
      ''halt'', ''pause'',
      ''if'', ''then'', ''else'',
      ''do'', ''loop'', ''+loop'',
      ''begin'', ''again'', ''until'', ''while'', ''repeat'',
      ''exit'',
      ''!'', ''+!'', ''@'',
      ''len'', ''pos'', ''end'', ''seek'', ''skip'',
      ''<-'', ''stack'', ''rewind'']"

definition input_parser_words :: "string list" where
  "input_parser_words =
     [''?->'', ''b->'', ''h->'', ''i->'', ''q->'', ''n->'', ''B->'', ''H->'', ''I->'',
      ''Q->'', ''N->'', ''f->'', ''d->'',
      ''!h->'', ''!i->'', ''!q->'', ''!n->'', ''!H->'', ''!I->'', ''!Q->'', ''!N->'',
      ''!f->'', ''!d->'',
      ''#?->'', ''#b->'', ''#h->'', ''#i->'', ''#q->'', ''#n->'', ''#B->'', ''#H->'',
      ''#I->'', ''#Q->'', ''#N->'', ''#f->'', ''#d->'',
      ''#!h->'', ''#!i->'', ''#!q->'', ''#!n->'', ''#!H->'', ''#!I->'', ''#!Q->'',
      ''#!N->'', ''#!f->'', ''#!d->'']"

definition output_dtype_words :: "(string \<times> dtype) list" where
  "output_dtype_words =
     [(''bool'', boolean), (''int8'', int8), (''int16'', int16), (''int32'', int32),
      (''int64'', int64), (''uint8'', uint8), (''uint16'', uint16), (''uint32'', uint32),
      (''uint64'', uint64), (''float32'', float32), (''float64'', float64)]"

definition generic_builtin_words :: "(string \<times> bytecode) list" where
  "generic_builtin_words =
     [(''i'', CODE_I), (''j'', CODE_J), (''k'', CODE_K),
      (''dup'', CODE_DUP), (''drop'', CODE_DROP), (''swap'', CODE_SWAP),
      (''over'', CODE_OVER), (''rot'', CODE_ROT), (''nip'', CODE_NIP), (''tuck'', CODE_TUCK),
      (''+'', CODE_ADD), (''-'', CODE_SUB), (''*'', CODE_MUL), (''/'', CODE_DIV),
      (''mod'', CODE_MOD), (''/mod'', CODE_DIVMOD), (''negate'', CODE_NEGATE),
      (''1+'', CODE_ADD1), (''1-'', CODE_SUB1), (''abs'', CODE_ABS), (''min'', CODE_MIN),
      (''max'', CODE_MAX),
      (''='', CODE_EQ), (''<>'', CODE_NE), (''>'', CODE_GT), (''>='', CODE_GE),
      (''<'', CODE_LT), (''<='', CODE_LE), (''0='', CODE_EQ0),
      (''invert'', CODE_INVERT), (''and'', CODE_AND), (''or'', CODE_OR), (''xor'', CODE_XOR),
      (''lshift'', CODE_LSHIFT), (''rshift'', CODE_RSHIFT),
      (''false'', CODE_FALSE), (''true'', CODE_TRUE)]"

subsection \<open>The tokenizer\<close>

text \<open>
  \<^verbatim>\<open>tokenize\<close> without the line and column of each token, which only the text of a
  compile error uses. \<open>cur\<close> is \<^verbatim>\<open>source_.substr(start, stop - start)\<close> while \<open>full\<close>.
\<close>

definition is_token_separator :: "char \<Rightarrow> bool" where
  "is_token_separator c \<longleftrightarrow>
     c = CHR '' '' \<or> c = CHR 0x0D \<or> c = CHR 0x09 \<or> c = CHR 0x0B \<or> c = CHR 0x0C"

fun tokenize_from :: "string \<Rightarrow> string \<Rightarrow> bool \<Rightarrow> string list" where
  "tokenize_from [] cur full = (if full then [cur] else [])"
| "tokenize_from (c # cs) cur full =
     (if is_token_separator c then
        (if full then [cur] else []) @ tokenize_from cs [] False
      else if c = CHR 0x0A then
        (if full then [cur] else []) @ [[c]] @ tokenize_from cs [] False
      else tokenize_from cs ((if full then cur else []) @ [c]) True)"

definition tokenize :: "string \<Rightarrow> string list" where
  "tokenize source = tokenize_from source [] False"

subsection \<open>Integer literals\<close>

text \<open>
  Compile errors are C++ exceptions: \<^verbatim>\<open>std::invalid_argument\<close> with the message given to
  \<^verbatim>\<open>err_linecol\<close>, and \<^verbatim>\<open>std::out_of_range\<close>, which \<^verbatim>\<open>std::stoul\<close> throws and \<^verbatim>\<open>is_integer\<close>
  does not catch. \<open>Undefined_compile\<close> is a store outside the vector of segments.
\<close>

datatype compile_error = Invalid_argument string | Out_of_range | Undefined_compile

text \<open>
  \<^verbatim>\<open>std::stoul(str, nullptr, base)\<close> is \<^verbatim>\<open>strtoul\<close> of the C library, for a 64-bit
  \<^verbatim>\<open>unsigned long\<close>: white space is skipped, a sign is optional, base 16 allows a
  \<open>0x\<close> prefix before a hexadecimal digit, and the longest run of digits is the number;
  what follows the digits is ignored. No digit at all is \<^verbatim>\<open>std::invalid_argument\<close>, a value
  above \<open>2^64 - 1\<close> is \<^verbatim>\<open>std::out_of_range\<close>, and a minus sign negates the value as an
  unsigned number.
\<close>

definition is_space :: "char \<Rightarrow> bool" where
  "is_space c \<longleftrightarrow>
     c = CHR '' '' \<or> c = CHR 0x09 \<or> c = CHR 0x0A \<or> c = CHR 0x0B \<or> c = CHR 0x0C \<or> c = CHR 0x0D"

definition digit_of :: "nat \<Rightarrow> char \<Rightarrow> nat option" where
  "digit_of base c =
     (let n = (of_char c :: nat);
          d = (if 48 \<le> n \<and> n \<le> 57 then Some (n - 48)
               else if 97 \<le> n \<and> n \<le> 122 then Some (n - 87)
               else if 65 \<le> n \<and> n \<le> 90 then Some (n - 55)
               else None)
      in case d of
           None \<Rightarrow> None
         | Some v \<Rightarrow> if v < base then Some v else None)"

fun leading_digits :: "nat \<Rightarrow> string \<Rightarrow> nat list" where
  "leading_digits base [] = []"
| "leading_digits base (c # cs) =
     (case digit_of base c of
        None \<Rightarrow> []
      | Some d \<Rightarrow> d # leading_digits base cs)"

definition digits_value :: "nat \<Rightarrow> nat list \<Rightarrow> nat" where
  "digits_value base ds = foldl (\<lambda>acc d. acc * base + d) 0 ds"

datatype stoul_result = Stoul_invalid_argument | Stoul_out_of_range | Stoul_value "64 word"

definition stoul :: "string \<Rightarrow> nat \<Rightarrow> stoul_result" where
  "stoul str base =
     (let s1 = dropWhile is_space str;
          negative = (s1 \<noteq> [] \<and> hd s1 = CHR ''-'');
          s2 = (if s1 \<noteq> [] \<and> (hd s1 = CHR ''-'' \<or> hd s1 = CHR ''+'') then tl s1 else s1);
          s3 = (if base = 16 \<and> 3 \<le> length s2 \<and> s2 ! 0 = CHR ''0''
                   \<and> (s2 ! 1 = CHR ''x'' \<or> s2 ! 1 = CHR ''X'')
                   \<and> digit_of 16 (s2 ! 2) \<noteq> None
                then drop 2 s2 else s2);
          ds = leading_digits base s3
      in if ds = [] then Stoul_invalid_argument
         else if 2 ^ 64 \<le> digits_value base ds then Stoul_out_of_range
         else Stoul_value (if negative then - of_nat (digits_value base ds)
                           else of_nat (digits_value base ds)))"

text \<open>
  \<^verbatim>\<open>is_integer(word, value)\<close>: \<open>Inr None\<close> is \<^verbatim>\<open>false\<close>, \<open>Inr (Some value)\<close> is \<^verbatim>\<open>true\<close>,
  \<open>Inl\<close> is the exception that escapes.
\<close>

definition is_integer :: "string \<Rightarrow> compile_error + 64 word option" where
  "is_integer word =
     (case (if 2 \<le> length word \<and> take 2 word = ''0x''
            then stoul (drop 2 word) 16
            else stoul word 10) of
        Stoul_invalid_argument \<Rightarrow> Inr None
      | Stoul_out_of_range \<Rightarrow> Inl Out_of_range
      | Stoul_value v \<Rightarrow> Inr (Some v))"

subsection \<open>Names\<close>

definition is_variable :: "('c, 'i) machine \<Rightarrow> string \<Rightarrow> bool" where
  "is_variable m word \<longleftrightarrow> word \<in> set (variable_names m)"

definition is_input :: "('c, 'i) machine \<Rightarrow> string \<Rightarrow> bool" where
  "is_input m word \<longleftrightarrow> word \<in> set (input_names m)"

definition is_output :: "('c, 'i) machine \<Rightarrow> string \<Rightarrow> bool" where
  "is_output m word \<longleftrightarrow> word \<in> set (output_names m)"

definition is_reserved :: "string \<Rightarrow> bool" where
  "is_reserved word \<longleftrightarrow>
     word \<in> set reserved_words \<or> word \<in> set input_parser_words
     \<or> word \<in> set (map fst output_dtype_words) \<or> word \<in> set (map fst generic_builtin_words)"

definition is_defined :: "('c, 'i) machine \<Rightarrow> string \<Rightarrow> bool" where
  "is_defined m word \<longleftrightarrow> word \<in> set (dictionary_names m)"

text \<open>
  The test that guards every declaration of a name,
  \<^verbatim>\<open>is_input(name) || is_output(name) || is_variable(name) || is_defined(name) ||
  is_reserved(name) || is_integer(name, num)\<close>; \<^verbatim>\<open>is_integer\<close> runs last and may throw.
\<close>

definition name_is_taken :: "('c, 'i) machine \<Rightarrow> string \<Rightarrow> compile_error + bool" where
  "name_is_taken m name =
     (if is_input m name \<or> is_output m name \<or> is_variable m name \<or> is_defined m name
         \<or> is_reserved name
      then Inr True
      else (case is_integer name of
              Inl e \<Rightarrow> Inl e
            | Inr None \<Rightarrow> Inr False
            | Inr (Some num) \<Rightarrow> Inr True))"

definition names_must_be_unique :: string where
  "names_must_be_unique =
     ''input names, output names, variable names, and user-defined'' @
     ''words must all be unique and not reserved words or integers''"

text \<open>\<^verbatim>\<open>for (; index < names.size(); index++) { if (names[index] == word) break; }\<close>\<close>

definition index_of :: "string list \<Rightarrow> string \<Rightarrow> nat" where
  "index_of names word = length (takeWhile (\<lambda>name. name \<noteq> word) names)"

subsection \<open>Finding the end of a construct\<close>

text \<open>
  The loops of \<^verbatim>\<open>parse\<close> that look for the token closing a construct, each as it is
  written: \<open>substop\<close> and \<open>nesting\<close> are the loop's variables, \<open>None\<close> is the throw
  when \<open>substop\<close> reaches \<open>stop\<close>.
\<close>

function scan_comment :: "string list \<Rightarrow> nat \<Rightarrow> nat \<Rightarrow> nat \<Rightarrow> nat option" where
  "scan_comment tokenized stop substop nesting =
     (if 0 < nesting then
        (if stop \<le> substop + 1 then None
         else scan_comment tokenized stop (substop + 1)
                (if tokenized ! (substop + 1) = ''('' then nesting + 1
                 else if tokenized ! (substop + 1) = '')'' then nesting - 1
                 else nesting))
      else Some substop)"
  by pat_completeness auto
termination
  by (relation "measure (\<lambda>(tokenized, stop, substop, nesting). stop - substop)") auto

declare scan_comment.simps [simp del]

text \<open>\<^verbatim>\<open>while (substop < stop && tokenized[substop] != "\n") substop++;\<close>\<close>

function scan_line :: "string list \<Rightarrow> nat \<Rightarrow> nat \<Rightarrow> nat" where
  "scan_line tokenized stop substop =
     (if substop < stop \<and> tokenized ! substop \<noteq> newline_token
      then scan_line tokenized stop (substop + 1)
      else substop)"
  by pat_completeness auto
termination
  by (relation "measure (\<lambda>(tokenized, stop, substop). stop - substop)") auto

declare scan_line.simps [simp del]

function scan_definition :: "string list \<Rightarrow> nat \<Rightarrow> nat \<Rightarrow> nat \<Rightarrow> nat option" where
  "scan_definition tokenized stop substop nesting =
     (if 0 < nesting then
        (if stop \<le> substop + 1 then None
         else scan_definition tokenized stop (substop + 1)
                (if tokenized ! (substop + 1) = '':'' then nesting + 1
                 else if tokenized ! (substop + 1) = '';'' then nesting - 1
                 else nesting))
      else Some substop)"
  by pat_completeness auto
termination
  by (relation "measure (\<lambda>(tokenized, stop, substop, nesting). stop - substop)") auto

declare scan_definition.simps [simp del]

text \<open>The result is \<open>(substop, subelse)\<close>; \<open>subelse = -1\<close> is \<open>None\<close>.\<close>

function scan_if :: "string list \<Rightarrow> nat \<Rightarrow> nat \<Rightarrow> nat \<Rightarrow> nat option \<Rightarrow> (nat \<times> nat option) option" where
  "scan_if tokenized stop substop nesting subelse =
     (if 0 < nesting then
        (if stop \<le> substop + 1 then None
         else scan_if tokenized stop (substop + 1)
                (if tokenized ! (substop + 1) = ''if'' then nesting + 1
                 else if tokenized ! (substop + 1) = ''then'' then nesting - 1
                 else nesting)
                (if tokenized ! (substop + 1) = ''else'' \<and> nesting = 1
                 then Some (substop + 1) else subelse))
      else Some (substop, subelse))"
  by pat_completeness auto
termination
  by (relation "measure (\<lambda>(tokenized, stop, substop, nesting, subelse). stop - substop)") auto

declare scan_if.simps [simp del]

text \<open>The result is \<open>(substop, is_step)\<close>.\<close>

function scan_do :: "string list \<Rightarrow> nat \<Rightarrow> nat \<Rightarrow> nat \<Rightarrow> bool \<Rightarrow> (nat \<times> bool) option" where
  "scan_do tokenized stop substop nesting is_step =
     (if 0 < nesting then
        (if stop \<le> substop + 1 then None
         else scan_do tokenized stop (substop + 1)
                (if tokenized ! (substop + 1) = ''do'' then nesting + 1
                 else if tokenized ! (substop + 1) = ''loop'' then nesting - 1
                 else if tokenized ! (substop + 1) = ''+loop'' then nesting - 1
                 else nesting)
                (if tokenized ! (substop + 1) = ''+loop'' \<and> nesting = 1
                 then True else is_step))
      else Some (substop, is_step))"
  by pat_completeness auto
termination
  by (relation "measure (\<lambda>(tokenized, stop, substop, nesting, is_step). stop - substop)") auto

declare scan_do.simps [simp del]

text \<open>The inner loop of the \<open>begin\<close> scan, from a \<open>while\<close> to its \<open>repeat\<close>.\<close>

function scan_repeat :: "string list \<Rightarrow> nat \<Rightarrow> nat \<Rightarrow> nat \<Rightarrow> nat option" where
  "scan_repeat tokenized stop substop subnesting =
     (if 0 < subnesting then
        (if stop \<le> substop + 1 then None
         else scan_repeat tokenized stop (substop + 1)
                (if tokenized ! (substop + 1) = ''while'' then subnesting + 1
                 else if tokenized ! (substop + 1) = ''repeat'' then subnesting - 1
                 else subnesting))
      else Some substop)"
  by pat_completeness auto
termination
  by (relation "measure (\<lambda>(tokenized, stop, substop, subnesting). stop - substop)") auto

declare scan_repeat.simps [simp del]

lemma scan_repeat_bounds:
  "scan_repeat tokenized stop substop subnesting = Some r \<Longrightarrow>
     substop \<le> r \<and> (substop < stop \<longrightarrow> r < stop)
     \<and> (0 < subnesting \<longrightarrow> substop < r \<and> r < stop)"
proof (induction tokenized stop substop subnesting rule: scan_repeat.induct)
  case (1 tokenized stop substop subnesting)
  from "1.prems" show ?case
    by (subst (asm) scan_repeat.simps) (auto split: if_splits dest!: "1.IH")
qed

text \<open>
  The result is \<open>(substop, is_again, subwhile)\<close>. The two error texts of the source
  (a missing \<open>until\<close>, a missing \<open>repeat\<close>) are \<open>Inl False\<close> and \<open>Inl True\<close>. At a
  \<open>while\<close> the inner loop moves \<open>substop\<close> to the matching \<open>repeat\<close>.
\<close>

function scan_begin :: "string list \<Rightarrow> nat \<Rightarrow> nat \<Rightarrow> nat \<Rightarrow> bool \<Rightarrow> nat option \<Rightarrow> bool + (nat \<times> bool \<times> nat option)" where
  "scan_begin tokenized stop substop nesting is_again subwhile =
     (if 0 < nesting then
        (if stop \<le> substop + 1 then Inl False
         else
           (case (if tokenized ! (substop + 1) \<noteq> ''begin''
                     \<and> tokenized ! (substop + 1) \<noteq> ''until''
                     \<and> tokenized ! (substop + 1) \<noteq> ''again''
                     \<and> tokenized ! (substop + 1) = ''while''
                  then scan_repeat tokenized stop (substop + 1) 1
                  else Some (substop + 1)) of
              None \<Rightarrow> Inl True
            | Some substop' \<Rightarrow>
                scan_begin tokenized stop substop'
                  (if tokenized ! (substop + 1) = ''begin'' then nesting + 1
                   else if tokenized ! (substop + 1) = ''until'' then nesting - 1
                   else if tokenized ! (substop + 1) = ''again'' then nesting - 1
                   else if tokenized ! (substop + 1) = ''while'' then nesting - 1
                   else nesting)
                  (if tokenized ! (substop + 1) = ''again'' \<and> nesting = 1
                   then True else is_again)
                  (if tokenized ! (substop + 1) = ''while'' \<and> nesting = 1
                   then Some (substop + 1) else subwhile)))
      else Inr (substop, is_again, subwhile))"
  by pat_completeness auto
termination
  by (relation "measure (\<lambda>(tokenized, stop, substop, nesting, is_again, subwhile). stop - substop)")
     (auto split: if_splits dest!: scan_repeat_bounds)

declare scan_begin.simps [simp del]

lemma scan_comment_bounds:
  "scan_comment tokenized stop substop nesting = Some r \<Longrightarrow>
     substop \<le> r \<and> (substop < stop \<longrightarrow> r < stop)
     \<and> (0 < nesting \<longrightarrow> substop < r \<and> r < stop)"
proof (induction tokenized stop substop nesting rule: scan_comment.induct)
  case (1 tokenized stop substop nesting)
  from "1.prems" show ?case
    by (subst (asm) scan_comment.simps) (auto split: if_splits dest!: "1.IH")
qed

lemma scan_line_bounds: "substop \<le> scan_line tokenized stop substop"
proof (induction tokenized stop substop rule: scan_line.induct)
  case (1 tokenized stop substop)
  then show ?case
    by (subst scan_line.simps) auto
qed

lemma scan_definition_bounds:
  "scan_definition tokenized stop substop nesting = Some r \<Longrightarrow>
     substop \<le> r \<and> (substop < stop \<longrightarrow> r < stop)
     \<and> (0 < nesting \<longrightarrow> substop < r \<and> r < stop)"
proof (induction tokenized stop substop nesting rule: scan_definition.induct)
  case (1 tokenized stop substop nesting)
  from "1.prems" show ?case
    by (subst (asm) scan_definition.simps) (auto split: if_splits dest!: "1.IH")
qed

text \<open>A recorded \<open>else\<close> lies strictly between the \<open>if\<close> and its \<open>then\<close>.\<close>

lemma scan_if_bounds:
  "scan_if tokenized stop substop nesting subelse = Some (r, e) \<Longrightarrow>
     substop \<le> r \<and> (substop < stop \<longrightarrow> r < stop)
     \<and> (0 < nesting \<longrightarrow> substop < r \<and> r < stop)
     \<and> (\<forall>se. e = Some se \<longrightarrow> subelse = Some se \<or> (substop < se \<and> se < r))"
proof (induction tokenized stop substop nesting subelse rule: scan_if.induct)
  case (1 tokenized stop substop nesting subelse)
  show ?case
  proof (cases "0 < nesting")
    case False
    with "1.prems" show ?thesis
      by (subst (asm) scan_if.simps) auto
  next
    case True
    from "1.prems" True have ns: "\<not> stop \<le> substop + 1"
      by (subst (asm) scan_if.simps) (auto split: if_splits)
    from "1.prems" True ns have rec:
      "scan_if tokenized stop (substop + 1)
         (if tokenized ! (substop + 1) = ''if'' then nesting + 1
          else if tokenized ! (substop + 1) = ''then'' then nesting - 1
          else nesting)
         (if tokenized ! (substop + 1) = ''else'' \<and> nesting = 1
          then Some (substop + 1) else subelse) = Some (r, e)"
      by (subst (asm) scan_if.simps) simp
    from "1.IH"[OF True ns rec] True ns show ?thesis
      by (auto split: if_splits)
  qed
qed

lemma scan_do_bounds:
  "scan_do tokenized stop substop nesting is_step = Some (r, s) \<Longrightarrow>
     substop \<le> r \<and> (substop < stop \<longrightarrow> r < stop)
     \<and> (0 < nesting \<longrightarrow> substop < r \<and> r < stop)"
proof (induction tokenized stop substop nesting is_step rule: scan_do.induct)
  case (1 tokenized stop substop nesting is_step)
  show ?case
  proof (cases "0 < nesting")
    case False
    with "1.prems" show ?thesis
      by (subst (asm) scan_do.simps) auto
  next
    case True
    from "1.prems" True have ns: "\<not> stop \<le> substop + 1"
      by (subst (asm) scan_do.simps) (auto split: if_splits)
    from "1.prems" True ns have rec:
      "scan_do tokenized stop (substop + 1)
         (if tokenized ! (substop + 1) = ''do'' then nesting + 1
          else if tokenized ! (substop + 1) = ''loop'' then nesting - 1
          else if tokenized ! (substop + 1) = ''+loop'' then nesting - 1
          else nesting)
         (if tokenized ! (substop + 1) = ''+loop'' \<and> nesting = 1
          then True else is_step) = Some (r, s)"
      by (subst (asm) scan_do.simps) simp
    from "1.IH"[OF True ns rec] True ns show ?thesis
      by auto
  qed
qed

lemma scan_begin_bounds:
  "scan_begin tokenized stop substop nesting is_again subwhile = Inr (r, a, w) \<Longrightarrow>
     substop \<le> r \<and> (substop < stop \<longrightarrow> r < stop)
     \<and> (0 < nesting \<longrightarrow> substop < r \<and> r < stop)
     \<and> (\<forall>sw. w = Some sw \<longrightarrow> subwhile = Some sw \<or> (substop < sw \<and> sw < r))"
proof (induction tokenized stop substop nesting is_again subwhile rule: scan_begin.induct)
  case (1 tokenized stop substop nesting is_again subwhile)
  show ?case
  proof (cases "0 < nesting")
    case False
    with "1.prems" show ?thesis
      by (subst (asm) scan_begin.simps) auto
  next
    case True
    from "1.prems" True have ns: "\<not> stop \<le> substop + 1"
      by (subst (asm) scan_begin.simps) (auto split: if_splits)
    define next_pos where "next_pos =
      (if tokenized ! (substop + 1) \<noteq> ''begin''
          \<and> tokenized ! (substop + 1) \<noteq> ''until''
          \<and> tokenized ! (substop + 1) \<noteq> ''again''
          \<and> tokenized ! (substop + 1) = ''while''
       then scan_repeat tokenized stop (substop + 1) 1
       else Some (substop + 1))"
    from "1.prems" True ns obtain substop' where np: "next_pos = Some substop'"
      unfolding next_pos_def
      by (subst (asm) scan_begin.simps) (auto split: option.splits if_splits)
    from "1.prems" True ns np have rec:
      "scan_begin tokenized stop substop'
         (if tokenized ! (substop + 1) = ''begin'' then nesting + 1
          else if tokenized ! (substop + 1) = ''until'' then nesting - 1
          else if tokenized ! (substop + 1) = ''again'' then nesting - 1
          else if tokenized ! (substop + 1) = ''while'' then nesting - 1
          else nesting)
         (if tokenized ! (substop + 1) = ''again'' \<and> nesting = 1
          then True else is_again)
         (if tokenized ! (substop + 1) = ''while'' \<and> nesting = 1
          then Some (substop + 1) else subwhile) = Inr (r, a, w)"
      unfolding next_pos_def
      by (subst (asm) scan_begin.simps) simp
    have pos: "substop + 1 \<le> substop' \<and> substop' < stop
        \<and> (tokenized ! (substop + 1) = ''while'' \<longrightarrow> substop + 1 < substop')"
      using np ns scan_repeat_bounds[of tokenized stop "substop + 1" 1 substop']
      unfolding next_pos_def by (auto split: if_splits)
    from "1.IH"[OF True ns np[unfolded next_pos_def] rec] True ns pos show ?thesis
      by (auto split: if_splits)
  qed
qed


subsection \<open>Words that emit code without a nested body\<close>

text \<open>
  The parser word after an input name, \<open>[#][!]{?,b,h,i,q,n,B,H,I,Q,N,f,d}->\<close>: the
  flags and the type are combined bitwise; \<open>None\<close> is \<^verbatim>\<open>!good || parser != "->"\<close>.
\<close>

definition read_type_of :: "char \<Rightarrow> bytecode option" where
  "read_type_of c =
     (if c = CHR ''?'' then Some READ_BOOL
      else if c = CHR ''b'' then Some READ_INT8
      else if c = CHR ''h'' then Some READ_INT16
      else if c = CHR ''i'' then Some READ_INT32
      else if c = CHR ''q'' then Some READ_INT64
      else if c = CHR ''n'' then Some READ_INTP
      else if c = CHR ''B'' then Some READ_UINT8
      else if c = CHR ''H'' then Some READ_UINT16
      else if c = CHR ''I'' then Some READ_UINT32
      else if c = CHR ''Q'' then Some READ_UINT64
      else if c = CHR ''N'' then Some READ_UINTP
      else if c = CHR ''f'' then Some READ_FLOAT32
      else if c = CHR ''d'' then Some READ_FLOAT64
      else None)"

definition parser_word :: "string \<Rightarrow> bytecode option" where
  "parser_word parser =
     (let repeated = (parser \<noteq> [] \<and> hd parser = CHR ''#'');
          parser1 = (if repeated then tl parser else parser);
          bigendian = (parser1 \<noteq> [] \<and> hd parser1 = CHR ''!'');
          parser2 = (if bigendian then tl parser1 else parser1);
          flags = (if repeated then READ_REPEATED else 0) OR (if bigendian then READ_BIGENDIAN else 0)
      in case parser2 of
           [] \<Rightarrow> None
         | c # parser3 \<Rightarrow>
             (case read_type_of c of
                None \<Rightarrow> None
              | Some t \<Rightarrow> if parser3 = ''->'' then Some (flags OR t) else None))"

text \<open>
  The branches of \<^verbatim>\<open>parse\<close> that do not parse a nested body, in the order of the
  source: \<open>recurse\<close>, the declarations, \<open>halt\<close>, \<open>pause\<close>, \<open>exit\<close>, a variable, an input
  or an output name with its action, and last a builtin word, a defined word or an
  integer literal. \<open>bcodes\<close> is the parameter \<^verbatim>\<open>bytecodes\<close>. The result is the new
  \<open>pos\<close>, the bytecodes of the segment and the
  machine with its name tables. The texts of the errors leave out the quotation marks
  of the source's texts.
\<close>

definition parse_plain :: "string \<Rightarrow> string list \<Rightarrow> nat \<Rightarrow> nat \<Rightarrow> bytecode list \<Rightarrow> nat \<Rightarrow> nat \<Rightarrow> ('a::len word, 'i) machine \<Rightarrow> compile_error + (nat \<times> bytecode list \<times> ('a word, 'i) machine)" where
  "parse_plain defn tokenized pos stop bcodes exitdepth dodepth m =
     (let word = tokenized ! pos
      in
      if word = ''recurse'' then
        (if defn = '''' then Inl (Invalid_argument ''only allowed in a : name ... ; definition'')
         else Inr (pos + 1,
                   bcodes @ map snd (filter (\<lambda>(name, b). name = defn)
                                          (zip (dictionary_names m) (dictionary_bytecodes m))),
                   m))
      else if word = ''variable'' then
        (if stop \<le> pos + 1 then Inl (Invalid_argument ''missing name in variable declaration'')
         else (case name_is_taken m (tokenized ! (pos + 1)) of
                 Inl e \<Rightarrow> Inl e
               | Inr True \<Rightarrow> Inl (Invalid_argument names_must_be_unique)
               | Inr False \<Rightarrow>
                   Inr (pos + 2, bcodes,
                        m\<lparr>variable_names := variable_names m @ [tokenized ! (pos + 1)],
                          variables := variables m @ [0]\<rparr>)))
      else if word = ''input'' then
        (if stop \<le> pos + 1 then Inl (Invalid_argument ''missing name in input declaration'')
         else (case name_is_taken m (tokenized ! (pos + 1)) of
                 Inl e \<Rightarrow> Inl e
               | Inr True \<Rightarrow> Inl (Invalid_argument names_must_be_unique)
               | Inr False \<Rightarrow>
                   Inr (pos + 2, bcodes,
                        m\<lparr>input_names := input_names m @ [tokenized ! (pos + 1)]\<rparr>)))
      else if word = ''output'' then
        (if stop \<le> pos + 2
         then Inl (Invalid_argument ''missing name or dtype in output declaration'')
         else (case name_is_taken m (tokenized ! (pos + 1)) of
                 Inl e \<Rightarrow> Inl e
               | Inr True \<Rightarrow> Inl (Invalid_argument names_must_be_unique)
               | Inr False \<Rightarrow>
                   (case map_of output_dtype_words (tokenized ! (pos + 2)) of
                      None \<Rightarrow> Inl (Invalid_argument ''output dtype not recognized'')
                    | Some dt \<Rightarrow>
                        Inr (pos + 3, bcodes,
                             m\<lparr>output_names := output_names m @ [tokenized ! (pos + 1)],
                               output_dtypes := output_dtypes m @ [dt]\<rparr>))))
      else if word = ''halt'' then Inr (pos + 1, bcodes @ [CODE_HALT], m)
      else if word = ''pause'' then Inr (pos + 1, bcodes @ [CODE_PAUSE], m)
      else if word = ''exit'' then Inr (pos + 1, bcodes @ [CODE_EXIT, of_nat exitdepth], m)
      else if is_variable m word then
        (if pos + 1 < stop \<and> tokenized ! (pos + 1) = ''!''
         then Inr (pos + 2, bcodes @ [CODE_PUT, of_nat (index_of (variable_names m) word)], m)
         else if pos + 1 < stop \<and> tokenized ! (pos + 1) = ''+!''
         then Inr (pos + 2, bcodes @ [CODE_INC, of_nat (index_of (variable_names m) word)], m)
         else if pos + 1 < stop \<and> tokenized ! (pos + 1) = ''@''
         then Inr (pos + 2, bcodes @ [CODE_GET, of_nat (index_of (variable_names m) word)], m)
         else Inl (Invalid_argument ''missing !, +!, or @ after variable name''))
      else if is_input m word then
        (if pos + 1 < stop \<and> tokenized ! (pos + 1) = ''len''
         then Inr (pos + 2, bcodes @ [CODE_LEN_INPUT, of_nat (index_of (input_names m) word)], m)
         else if pos + 1 < stop \<and> tokenized ! (pos + 1) = ''pos''
         then Inr (pos + 2, bcodes @ [CODE_POS, of_nat (index_of (input_names m) word)], m)
         else if pos + 1 < stop \<and> tokenized ! (pos + 1) = ''end''
         then Inr (pos + 2, bcodes @ [CODE_END, of_nat (index_of (input_names m) word)], m)
         else if pos + 1 < stop \<and> tokenized ! (pos + 1) = ''seek''
         then Inr (pos + 2, bcodes @ [CODE_SEEK, of_nat (index_of (input_names m) word)], m)
         else if pos + 1 < stop \<and> tokenized ! (pos + 1) = ''skip''
         then Inr (pos + 2, bcodes @ [CODE_SKIP, of_nat (index_of (input_names m) word)], m)
         else if pos + 1 < stop then
           (case parser_word (tokenized ! (pos + 1)) of
              None \<Rightarrow>
                Inl (Invalid_argument
                  ''missing *-> stack/output, seek, skip, end, pos, or len after input name'')
            | Some bytecode \<Rightarrow>
                (if pos + 2 < stop \<and> tokenized ! (pos + 2) = ''stack''
                 then Inr (pos + 3,
                           bcodes @ [NOT bytecode, of_nat (index_of (input_names m) word)], m)
                 else if pos + 2 < stop \<and> is_output m (tokenized ! (pos + 2))
                 then Inr (pos + 3,
                           bcodes @ [NOT (bytecode OR READ_DIRECT),
                                        of_nat (index_of (input_names m) word),
                                        of_nat (index_of (output_names m) (tokenized ! (pos + 2)))],
                           m)
                 else Inl (Invalid_argument ''missing stack or output after *->'')))
         else Inl (Invalid_argument
                ''missing *-> stack/output, seek, skip, end, pos, or len after input name''))
      else if is_output m word then
        (if pos + 1 < stop \<and> tokenized ! (pos + 1) = ''<-'' then
           (if pos + 2 < stop \<and> tokenized ! (pos + 2) = ''stack''
            then Inr (pos + 3, bcodes @ [CODE_WRITE, of_nat (index_of (output_names m) word)], m)
            else Inl (Invalid_argument ''missing stack after <-''))
         else if pos + 1 < stop \<and> tokenized ! (pos + 1) = ''len''
         then Inr (pos + 2, bcodes @ [CODE_LEN_OUTPUT, of_nat (index_of (output_names m) word)], m)
         else if pos + 1 < stop \<and> tokenized ! (pos + 1) = ''rewind''
         then Inr (pos + 2, bcodes @ [CODE_REWIND, of_nat (index_of (output_names m) word)], m)
         else Inl (Invalid_argument ''missing <- stack, len, or rewind after output name''))
      else
        (case map_of generic_builtin_words word of
           Some code \<Rightarrow>
             (if word = ''i'' \<and> dodepth < 1
              then Inl (Invalid_argument ''only allowed in a do loop'')
              else if word = ''j'' \<and> dodepth < 2
              then Inl (Invalid_argument ''only allowed in a nested do loop'')
              else if word = ''k'' \<and> dodepth < 3
              then Inl (Invalid_argument ''only allowed in a doubly nested do loop'')
              else Inr (pos + 1, bcodes @ [code], m))
         | None \<Rightarrow>
             (if is_defined m word
              then Inr (pos + length (filter (\<lambda>name. name = word) (dictionary_names m)),
                        bcodes @ map snd (filter (\<lambda>(name, b). name = word)
                                               (zip (dictionary_names m) (dictionary_bytecodes m))),
                        m)
              else (case is_integer word of
                      Inl e \<Rightarrow> Inl e
                    | Inr (Some num) \<Rightarrow> Inr (pos + 1, bcodes @ [CODE_LITERAL, ucast num], m)
                    | Inr None \<Rightarrow>
                        Inl (Invalid_argument ''unrecognized word or wrong context for word'')))))"

lemma defined_word_matches:
  "word \<in> set names \<Longrightarrow> 0 < length (filter (\<lambda>name. name = word) names)"
  by (induction names) auto

lemma parse_plain_advances:
  "parse_plain defn tokenized pos stop bcodes exitdepth dodepth m = Inr (pos', bcodes', m')
   \<Longrightarrow> pos < pos'"
  unfolding parse_plain_def Let_def is_defined_def
  by (auto split: if_splits sum.splits bool.splits option.splits
           dest: defined_word_matches)

subsection \<open>The recursive descent\<close>

text \<open>
  \<^verbatim>\<open>I bytecode = (I)dictionary.size() + BOUND_DICTIONARY;\<close> and, once the body is parsed,
  \<^verbatim>\<open>dictionary[(IndexTypeOf<I>)bytecode - BOUND_DICTIONARY] = body;\<close> whose index is
  outside the vector when the 32-bit sum has wrapped around.
\<close>

definition segment_bytecode :: "bytecode list list \<Rightarrow> bytecode" where
  "segment_bytecode dictionary = of_nat (length dictionary) + BOUND_DICTIONARY"

definition store_segment :: "bytecode list list \<Rightarrow> bytecode \<Rightarrow> bytecode list \<Rightarrow> compile_error + bytecode list list" where
  "store_segment dictionary bytecode body =
     (if 0 \<le> sint bytecode - sint BOUND_DICTIONARY
         \<and> sint bytecode - sint BOUND_DICTIONARY < int (length dictionary)
      then Inr (dictionary[nat (sint bytecode - sint BOUND_DICTIONARY) := body])
      else Inl Undefined_compile)"

lemma scan_line_measure:
  "\<not> stop \<le> pos \<Longrightarrow> stop - Suc (scan_line tokenized stop pos) < stop - pos"
  using scan_line_bounds[of pos tokenized stop] by simp

text \<open>
  \<^verbatim>\<open>parse\<close>. \<open>bcodes\<close> is the parameter \<^verbatim>\<open>bytecodes\<close>, the segment being filled; the
  result is that segment, the vector of segments and the machine. A body is parsed into
  a fresh segment that is first pushed empty onto \<open>dictionary\<close> and stored when its
  parse returns.
\<close>

function parse :: "string \<Rightarrow> string list \<Rightarrow> nat \<Rightarrow> nat \<Rightarrow> bytecode list \<Rightarrow> bytecode list list \<Rightarrow> nat \<Rightarrow> nat \<Rightarrow> ('a::len word, 'i) machine \<Rightarrow> compile_error + (bytecode list \<times> bytecode list list \<times> ('a word, 'i) machine)" where
  "parse defn tokenized pos stop bcodes dictionary exitdepth dodepth m =
     (if stop \<le> pos then Inr (bcodes, dictionary, m)
      else if tokenized ! pos = ''('' then
        (case scan_comment tokenized stop pos 1 of
           None \<Rightarrow> Inl (Invalid_argument ''( is missing its closing )'')
         | Some substop \<Rightarrow>
             parse defn tokenized (substop + 1) stop bcodes dictionary exitdepth dodepth m)
      else if tokenized ! pos = backslash_token then
        parse defn tokenized (scan_line tokenized stop pos + 1) stop bcodes dictionary
          exitdepth dodepth m
      else if tokenized ! pos = newline_token then
        parse defn tokenized (pos + 1) stop bcodes dictionary exitdepth dodepth m
      else if tokenized ! pos = '''' then
        parse defn tokenized (pos + 1) stop bcodes dictionary exitdepth dodepth m
      else if tokenized ! pos = '':'' then
        (if stop \<le> pos + 1 \<or> tokenized ! (pos + 1) = '';''
         then Inl (Invalid_argument ''missing name in word definition'')
         else
           (case name_is_taken m (tokenized ! (pos + 1)) of
              Inl e \<Rightarrow> Inl e
            | Inr True \<Rightarrow> Inl (Invalid_argument names_must_be_unique)
            | Inr False \<Rightarrow>
                (case scan_definition tokenized stop (pos + 1) 1 of
                   None \<Rightarrow> Inl (Invalid_argument ''definition is missing its closing ;'')
                 | Some substop \<Rightarrow>
                     (case parse (tokenized ! (pos + 1)) tokenized (pos + 2) substop []
                             (dictionary @ [[]]) 0 0
                             (m\<lparr>dictionary_names :=
                                   dictionary_names m @ [tokenized ! (pos + 1)],
                                 dictionary_bytecodes :=
                                   dictionary_bytecodes m @ [segment_bytecode dictionary]\<rparr>) of
                        Inl e \<Rightarrow> Inl e
                      | Inr (body, dictionary2, m2) \<Rightarrow>
                          (case store_segment dictionary2 (segment_bytecode dictionary) body of
                             Inl e \<Rightarrow> Inl e
                           | Inr dictionary3 \<Rightarrow>
                               parse defn tokenized (substop + 1) stop bcodes dictionary3
                                 exitdepth dodepth m2)))))
      else if tokenized ! pos = ''if'' then
        (case scan_if tokenized stop pos 1 None of
           None \<Rightarrow> Inl (Invalid_argument ''if is missing its closing then'')
         | Some (substop, None) \<Rightarrow>
             (case parse defn tokenized (pos + 1) substop [] (dictionary @ [[]])
                     (exitdepth + 1) dodepth m of
                Inl e \<Rightarrow> Inl e
              | Inr (consequent, dictionary2, m2) \<Rightarrow>
                  (case store_segment dictionary2 (segment_bytecode dictionary) consequent of
                     Inl e \<Rightarrow> Inl e
                   | Inr dictionary3 \<Rightarrow>
                       parse defn tokenized (substop + 1) stop
                         (bcodes @ [CODE_IF, segment_bytecode dictionary])
                         dictionary3 exitdepth dodepth m2))
         | Some (substop, Some subelse) \<Rightarrow>
             (case parse defn tokenized (pos + 1) subelse [] (dictionary @ [[]])
                     (exitdepth + 1) dodepth m of
                Inl e \<Rightarrow> Inl e
              | Inr (consequent, dictionary2, m2) \<Rightarrow>
                  (case store_segment dictionary2 (segment_bytecode dictionary) consequent of
                     Inl e \<Rightarrow> Inl e
                   | Inr dictionary3 \<Rightarrow>
                       (case parse defn tokenized (subelse + 1) substop []
                               (dictionary3 @ [[]]) (exitdepth + 1) dodepth m2 of
                          Inl e \<Rightarrow> Inl e
                        | Inr (alternate, dictionary4, m4) \<Rightarrow>
                            (case store_segment dictionary4 (segment_bytecode dictionary3)
                                    alternate of
                               Inl e \<Rightarrow> Inl e
                             | Inr dictionary5 \<Rightarrow>
                                 parse defn tokenized (substop + 1) stop
                                   (bcodes @ [CODE_IF_ELSE, segment_bytecode dictionary,
                                              segment_bytecode dictionary3])
                                   dictionary5 exitdepth dodepth m4)))))
      else if tokenized ! pos = ''do'' then
        (case scan_do tokenized stop pos 1 False of
           None \<Rightarrow> Inl (Invalid_argument ''do is missing its closing loop'')
         | Some (substop, is_step) \<Rightarrow>
             (case parse defn tokenized (pos + 1) substop [] (dictionary @ [[]])
                     (exitdepth + 1) (dodepth + 1) m of
                Inl e \<Rightarrow> Inl e
              | Inr (body, dictionary2, m2) \<Rightarrow>
                  (case store_segment dictionary2 (segment_bytecode dictionary) body of
                     Inl e \<Rightarrow> Inl e
                   | Inr dictionary3 \<Rightarrow>
                       parse defn tokenized (substop + 1) stop
                         (bcodes @ [if is_step then CODE_DO_STEP else CODE_DO,
                                    segment_bytecode dictionary])
                         dictionary3 exitdepth dodepth m2)))
      else if tokenized ! pos = ''begin'' then
        (case scan_begin tokenized stop pos 1 False None of
           Inl missing_repeat \<Rightarrow>
             Inl (Invalid_argument
                    (if missing_repeat then ''while is missing its closing repeat''
                     else ''begin is missing its closing until or while ... repeat''))
         | Inr (substop, is_again, subwhile) \<Rightarrow>
             (if is_again \<or> subwhile = None then
                (case parse defn tokenized (pos + 1) substop [] (dictionary @ [[]])
                        (exitdepth + 1) dodepth m of
                   Inl e \<Rightarrow> Inl e
                 | Inr (body, dictionary2, m2) \<Rightarrow>
                     (case store_segment dictionary2 (segment_bytecode dictionary) body of
                        Inl e \<Rightarrow> Inl e
                      | Inr dictionary3 \<Rightarrow>
                          parse defn tokenized (substop + 1) stop
                            (bcodes @ [segment_bytecode dictionary,
                                       if is_again then CODE_AGAIN else CODE_UNTIL])
                            dictionary3 exitdepth dodepth m2))
              else
                (case parse defn tokenized (pos + 1) (the subwhile) [] (dictionary @ [[]])
                        (exitdepth + 1) dodepth m of
                   Inl e \<Rightarrow> Inl e
                 | Inr (precondition, dictionary2, m2) \<Rightarrow>
                     (case store_segment dictionary2 (segment_bytecode dictionary)
                             precondition of
                        Inl e \<Rightarrow> Inl e
                      | Inr dictionary3 \<Rightarrow>
                          (case parse defn tokenized (the subwhile + 1) substop []
                                  (dictionary3 @ [[]]) (exitdepth + 1) dodepth m2 of
                             Inl e \<Rightarrow> Inl e
                           | Inr (postcondition, dictionary4, m4) \<Rightarrow>
                               (case store_segment dictionary4 (segment_bytecode dictionary3)
                                       postcondition of
                                  Inl e \<Rightarrow> Inl e
                                | Inr dictionary5 \<Rightarrow>
                                    parse defn tokenized (substop + 1) stop
                                      (bcodes @ [segment_bytecode dictionary, CODE_WHILE,
                                                 segment_bytecode dictionary3])
                                      dictionary5 exitdepth dodepth m4))))))
      else
        (case parse_plain defn tokenized pos stop bcodes exitdepth dodepth m of
           Inl e \<Rightarrow> Inl e
         | Inr (pos', bcodes', m') \<Rightarrow>
             parse defn tokenized pos' stop bcodes' dictionary exitdepth dodepth m'))"
  by pat_completeness auto
termination
  by (relation "measure (\<lambda>(defn, tokenized, pos, stop, bcodes, dictionary, exitdepth, dodepth, m).
                           stop - pos)")
     (auto dest!: scan_comment_bounds scan_definition_bounds scan_if_bounds scan_do_bounds
                  scan_begin_bounds parse_plain_advances
           simp: scan_line_measure)

declare parse.simps [simp del]

subsection \<open>Compiling a program\<close>

text \<open>
  The loop at the end of \<^verbatim>\<open>compile\<close>, which copies the segments into the flat
  \<^verbatim>\<open>bytecodes_\<close> and records where each one ends.
\<close>

fun flatten_segments :: "bytecode list list \<Rightarrow> bytecode list \<Rightarrow> int list \<Rightarrow> bytecode list \<times> int list" where
  "flatten_segments [] bcodes offsets = (bcodes, offsets)"
| "flatten_segments (segment # segments) bcodes offsets =
     flatten_segments segments (bcodes @ segment)
       (offsets @ [int (length (bcodes @ segment))])"

definition compile :: "string list \<Rightarrow> ('a::len word, 'i) machine \<Rightarrow> compile_error + ('a word, 'i) machine" where
  "compile tokenized m =
     (case parse '''' tokenized 0 (length tokenized) [] [[]] 0 0 m of
        Inl e \<Rightarrow> Inl e
      | Inr (bcodes, dictionary, m') \<Rightarrow>
          (case flatten_segments (dictionary[0 := bcodes]) (bytecodes m')
                  (bytecodes_offsets m' @ [0]) of
             (flat, offsets) \<Rightarrow> Inr (m'\<lparr>bytecodes := flat, bytecodes_offsets := offsets\<rparr>)))"

text \<open>
  The constructor \<^verbatim>\<open>ForthMachineOf(source, stack_max_depth, recursion_max_depth,
  output_initial_size, output_resize_factor)\<close>: every table starts empty, then the
  source is tokenized and compiled.
\<close>

definition ForthMachineOf :: "string \<Rightarrow> int \<Rightarrow> int \<Rightarrow> int \<Rightarrow> compile_error + ('a::len word, 'i) machine" where
  "ForthMachineOf source stack_max_depth' recursion_max_depth' output_initial_size' =
     compile (tokenize source)
       \<lparr>bytecodes = [], bytecodes_offsets = [], variable_names = [], variables = [],
        input_names = [], output_names = [], output_dtypes = [], dictionary_names = [],
        dictionary_bytecodes = [], output_initial_size = output_initial_size',
        stack_max_depth = stack_max_depth', recursion_max_depth = recursion_max_depth',
        stack = [], current_inputs = [], current_outputs = [], is_ready = False,
        frames = [], recursion_target_depth = [], do_frames = [], current_error = none,
        count_instructions = 0\<rparr>"

section \<open>Notions used to state the properties\<close>

text \<open>
  \<open>executes m bytecode\<close>: the inner loop of \<^verbatim>\<open>internal_run\<close>, entered with the machine
  \<open>m\<close>, fetches \<open>bytecode\<close> and dispatches it (it does not end a do-loop instead).
  \<open>fetched m\<close> is the machine as the dispatch finds it: \<open>where\<close> has moved past the
  bytecode, unless a do-frame of this recursion depth is open.
\<close>

definition executes :: "('c, 'i) machine \<Rightarrow> bytecode \<Rightarrow> bool" where
  "executes m bytecode \<longleftrightarrow>
     is_segment_done m = Some False \<and> bytecode_get m = Some bytecode
     \<and> \<not> (do_frame_is_current m \<and> do_stop (hd (do_frames m)) \<le>s do_i (hd (do_frames m)))"

definition fetched :: "('c, 'i) machine \<Rightarrow> ('c, 'i) machine" where
  "fetched m = (if do_frame_is_current m then m else where_add 1 m)"

text \<open>The machine a call came back with, if it returned.\<close>

definition returned :: "'m engine_result option \<Rightarrow> 'm option" where
  "returned r = (case r of Some (Returned m) \<Rightarrow> Some m | _ \<Rightarrow> None)"

text \<open>
  A program text made into a machine with the default capacities of the constructor
  (1024 for each): \<open>started\<close> is the machine after \<^verbatim>\<open>begin()\<close>, \<open>run_source\<close> what
  \<^verbatim>\<open>run()\<close> comes back with, both with no inputs, and \<open>final\<close> the machine of a run
  that compiled and returned.
\<close>

definition started :: "string \<Rightarrow> ('a::len word, unit) machine option" where
  "started source =
     (case ForthMachineOf source 1024 1024 1024 of
        Inl e \<Rightarrow> None
      | Inr m \<Rightarrow> returned (Some (machine_begin Map.empty m)))"

definition run_source :: "string \<Rightarrow> nat \<Rightarrow> compile_error + ('a::len word, unit) machine engine_result option" where
  "run_source source fuel =
     (case ForthMachineOf source 1024 1024 1024 of
        Inl e \<Rightarrow> Inl e
      | Inr m \<Rightarrow> Inr (run fuel Map.empty m))"

definition final :: "compile_error + 'm engine_result option \<Rightarrow> 'm option" where
  "final r = (case r of Inr (Some (Returned m)) \<Rightarrow> Some m | _ \<Rightarrow> None)"

text \<open>
  \<^verbatim>\<open>pair[1] + (pair[0] % pair[1])\<close>, the sum inside \<^verbatim>\<open>CODE_MOD\<close>, leaves the range of a
  cell.
\<close>

definition mod_sum_overflows :: "'a::len word \<Rightarrow> 'a word \<Rightarrow> bool" where
  "mod_sum_overflows a b \<longleftrightarrow>
     sint b + sint (cpp_rem a b) < - (2 ^ (LENGTH('a) - 1))
     \<or> 2 ^ (LENGTH('a) - 1) \<le> sint b + sint (cpp_rem a b)"

text \<open>
  The machines that the engine visits, one for each pass through a loop test, up to
  the one it stops at: the run of \<open>run_from\<close>, written down.
\<close>

fun visited_from :: "nat \<Rightarrow> bool \<Rightarrow> int \<Rightarrow> loop_point \<Rightarrow> ('a::len word, 'i) machine \<Rightarrow> ('a word, 'i) machine list" where
  "visited_from 0 single_step target pt m = []"
| "visited_from (Suc fuel) single_step target pt m =
     m # (case transition single_step target pt m of
            Stops r \<Rightarrow> []
          | Goes_on pt' m' \<Rightarrow> visited_from fuel single_step target pt' m')"

definition visited :: "string \<Rightarrow> nat \<Rightarrow> ('a::len word, unit) machine list" where
  "visited source fuel =
     (case started source of
        None \<Rightarrow> []
      | Some m \<Rightarrow> visited_from fuel False 0 Outer_loop m)"

text \<open>The inner loop, entered with the machine \<open>m\<close>, ends a do-loop.\<close>

definition ends_do_loop :: "('c, 'i) machine \<Rightarrow> bool" where
  "ends_do_loop m \<longleftrightarrow>
     is_segment_done m = Some False \<and> do_frame_is_current m
     \<and> do_stop (hd (do_frames m)) \<le>s do_i (hd (do_frames m))"

text \<open>
  A ready machine in the middle of a run at top level: it holds the given bytecodes,
  offsets, data stack and recursion stack, and no variable, input, output or do-loop.
\<close>

definition loaded :: "bytecode list \<Rightarrow> int list \<Rightarrow> 'a word list \<Rightarrow> (int \<times> int) list \<Rightarrow> ('a::len word, unit) machine" where
  "loaded bcodes offsets cells fs =
     \<lparr>bytecodes = bcodes, bytecodes_offsets = offsets, variable_names = [], variables = [],
      input_names = [], output_names = [], output_dtypes = [], dictionary_names = [],
      dictionary_bytecodes = [], output_initial_size = 1024, stack_max_depth = 1024,
      recursion_max_depth = 1024, stack = cells, current_inputs = [], current_outputs = [],
      is_ready = True, frames = fs, recursion_target_depth = [0], do_frames = [],
      current_error = none, count_instructions = 0\<rparr>"

text \<open>
  A token for which \<^verbatim>\<open>parse\<close> comes to its last branch and finds no builtin word and
  no defined word: it is none of the words that \<^verbatim>\<open>parse\<close> tests before (the comment
  openers, the newline, the empty word, the declarations and the control words that
  open a body), not the name of a variable, of an input or of an output, and not a
  builtin or a defined word.
\<close>

definition reaches_literal_fallback :: "('c, 'i) machine \<Rightarrow> string \<Rightarrow> bool" where
  "reaches_literal_fallback m word \<longleftrightarrow>
     word \<notin> set [''('', backslash_token, newline_token, '''', '':'', ''if'', ''do'', ''begin'',
                  ''recurse'', ''variable'', ''input'', ''output'', ''halt'', ''pause'', ''exit'']
     \<and> \<not> is_variable m word \<and> \<not> is_input m word \<and> \<not> is_output m word
     \<and> map_of generic_builtin_words word = None \<and> \<not> is_defined m word"

text \<open>
  The number that a token begins with, in the words of the specification: the decimal
  digits that a token starts with or, after \<open>0x\<close>, the hexadecimal digits that follow.
\<close>

definition numeric_prefix :: "string \<Rightarrow> nat option" where
  "numeric_prefix word =
     (if take 2 word = ''0x''
      then (if leading_digits 16 (drop 2 word) = [] then None
            else Some (digits_value 16 (leading_digits 16 (drop 2 word))))
      else (if leading_digits 10 word = [] then None
            else Some (digits_value 10 (leading_digits 10 word))))"

text \<open>\<open>0x\<close> is followed by \<open>0x\<close> or \<open>0X\<close> and a hexadecimal digit, which \<^verbatim>\<open>std::stoul\<close> skips.\<close>

definition second_hex_prefix :: "string \<Rightarrow> bool" where
  "second_hex_prefix word \<longleftrightarrow>
     take 2 word = ''0x'' \<and> 5 \<le> length word \<and> word ! 2 = CHR ''0''
     \<and> (word ! 3 = CHR ''x'' \<or> word ! 3 = CHR ''X'') \<and> digit_of 16 (word ! 4) \<noteq> None"

text \<open>
  The segments of a machine, cut out of \<open>bytecodes\<close> at the offsets, and the references
  to segments in a segment. A segment is read the way the engine runs it: a bytecode
  at the place of an instruction is followed by the operands that the instruction
  takes with \<^verbatim>\<open>bytecode_get\<close>, and these are skipped. A reference to a segment is a
  bytecode \<open>b \<ge> BOUND_DICTIONARY\<close> at the place of an instruction and every operand of
  \<open>CODE_IF\<close>, \<open>CODE_IF_ELSE\<close> and \<open>CODE_WHILE\<close>; it is valid for \<open>n\<close> segments when
  \<open>0 \<le> b - BOUND_DICTIONARY < n\<close>.
\<close>

definition segment_at :: "('c, 'i) machine \<Rightarrow> nat \<Rightarrow> bytecode list" where
  "segment_at m i =
     take (nat (bytecodes_offsets m ! (i + 1) - bytecodes_offsets m ! i))
       (drop (nat (bytecodes_offsets m ! i)) (bytecodes m))"

definition valid_ref :: "nat \<Rightarrow> bytecode \<Rightarrow> bool" where
  "valid_ref n b \<longleftrightarrow> BOUND_DICTIONARY \<le>s b \<and> sint b - sint BOUND_DICTIONARY < int n"

definition operand_slots :: "bytecode \<Rightarrow> nat" where
  "operand_slots b =
     (if b <s 0 then (if NOT b AND READ_DIRECT = 0 then 1 else 2)
      else if b = CODE_IF_ELSE then 2
      else if b \<in> set [CODE_LITERAL, CODE_IF, CODE_WHILE, CODE_EXIT, CODE_PUT, CODE_INC,
                        CODE_GET, CODE_LEN_INPUT, CODE_POS, CODE_END, CODE_SEEK, CODE_SKIP,
                        CODE_WRITE, CODE_LEN_OUTPUT, CODE_REWIND]
      then 1
      else 0)"

definition operands_are_segments :: "bytecode \<Rightarrow> bool" where
  "operands_are_segments b \<longleftrightarrow> b = CODE_IF \<or> b = CODE_IF_ELSE \<or> b = CODE_WHILE"

fun refs_ok :: "nat \<Rightarrow> bytecode list \<Rightarrow> bool" where
  "refs_ok n [] = True"
| "refs_ok n (b # rest) =
     (operand_slots b \<le> length rest
      \<and> (BOUND_DICTIONARY \<le>s b \<longrightarrow> valid_ref n b)
      \<and> (operands_are_segments b \<longrightarrow> list_all (valid_ref n) (take (operand_slots b) rest))
      \<and> refs_ok n (drop (operand_slots b) rest))"

text \<open>
  What \<^verbatim>\<open>parse\<close> keeps. \<open>references_valid n\<close>: the segment being filled, the segments
  stored so far and the bytecodes of the defined words hold only references that are
  valid for \<open>n\<close> segments. \<open>parse_post\<close> relates the arguments of a call of \<^verbatim>\<open>parse\<close>
  to what it returns: the vector of segments has not shrunk, the flat bytecodes and
  offsets of the machine and its capacity are untouched, outputs and dtypes were added
  in pairs, and
  valid references stay valid for every number of segments from the new length of the
  vector on. \<open>segment_post refs\<close> is the same for a nested body that has been parsed and
  stored, when the segment that is being filled has not changed yet; \<open>refs\<close> are the
  references to the bodies.
\<close>

definition references_valid :: "nat \<Rightarrow> bytecode list \<Rightarrow> bytecode list list \<Rightarrow> ('c, 'i) machine \<Rightarrow> bool" where
  "references_valid n bcodes dictionary m \<longleftrightarrow>
     refs_ok n bcodes \<and> list_all (refs_ok n) dictionary
     \<and> list_all (valid_ref n) (dictionary_bytecodes m)"

definition tables_kept :: "('c, 'i) machine \<Rightarrow> ('c, 'i) machine \<Rightarrow> bool" where
  "tables_kept m m' \<longleftrightarrow>
     bytecodes m' = bytecodes m \<and> bytecodes_offsets m' = bytecodes_offsets m
     \<and> recursion_max_depth m' = recursion_max_depth m
     \<and> length (output_dtypes m') + length (output_names m)
         = length (output_dtypes m) + length (output_names m')"

definition segment_post :: "bytecode list \<Rightarrow> bytecode list \<Rightarrow> bytecode list list \<Rightarrow> ('c, 'i) machine \<Rightarrow> bytecode list list \<Rightarrow> ('c, 'i) machine \<Rightarrow> bool" where
  "segment_post refs bcodes dictionary m dictionary' m' \<longleftrightarrow>
     length dictionary \<le> length dictionary' \<and> tables_kept m m'
     \<and> (\<forall>n\<ge>length dictionary'. references_valid n bcodes dictionary m \<longrightarrow>
           list_all (valid_ref n) refs \<and> references_valid n bcodes dictionary' m')"

definition parse_post :: "bytecode list \<Rightarrow> bytecode list list \<Rightarrow> ('c, 'i) machine \<Rightarrow> bytecode list \<Rightarrow> bytecode list list \<Rightarrow> ('c, 'i) machine \<Rightarrow> bool" where
  "parse_post bcodes dictionary m bcodes' dictionary' m' \<longleftrightarrow>
     length dictionary \<le> length dictionary' \<and> tables_kept m m'
     \<and> (\<forall>n\<ge>length dictionary'. references_valid n bcodes dictionary m \<longrightarrow>
           references_valid n bcodes' dictionary' m')"


text \<open>
  What holds of every such machine. Each open do-loop was opened inside a segment; and
  \<open>current_error\<close> tells the state: \<open>not_ready\<close> and \<open>user_halt\<close> go with a machine that
  is not ready, \<open>is_done\<close> with a ready one whose recursion stack is empty, and every
  other error with a ready one that still has the frame of the instruction that
  raised it.
\<close>

definition do_frames_inside :: "('c, 'i) machine \<Rightarrow> bool" where
  "do_frames_inside m \<longleftrightarrow> list_all (\<lambda>d. 1 \<le> do_abs_recursion_depth d) (do_frames m)"

definition error_state_ok :: "('c, 'i) machine \<Rightarrow> bool" where
  "error_state_ok m \<longleftrightarrow>
     do_frames_inside m
     \<and> (case current_error m of
          none \<Rightarrow> True
        | not_ready \<Rightarrow> \<not> is_ready m
        | user_halt \<Rightarrow> \<not> is_ready m
        | is_done \<Rightarrow> is_ready m \<and> frames m = []
        | _ \<Rightarrow> is_ready m \<and> frames m \<noteq> [])"

text \<open>
  The engine at work: a ready machine with no error. \<open>outcome_ok\<close>: an instruction
  either goes on with such a machine or returns with one whose error tells its state.
\<close>

definition running_ok :: "('c, 'i) machine \<Rightarrow> bool" where
  "running_ok m \<longleftrightarrow> is_ready m \<and> current_error m = none \<and> do_frames_inside m"

definition outcome_ok :: "('c, 'i) machine outcome \<Rightarrow> bool" where
  "outcome_ok out =
     (case out of
        Break m \<Rightarrow> running_ok m \<and> frames m \<noteq> []
      | Loop_again m \<Rightarrow> running_ok m
      | Goto_after_end_of_segment m \<Rightarrow> running_ok m
      | Return m \<Rightarrow> error_state_ok m
      | Undefined_behaviour \<Rightarrow> True
      | Unmodelled_io \<Rightarrow> True)"

section \<open>Properties\<close>

subsection \<open>Truncated and floored division\<close>


lemma smod_signs:
  fixes A B :: int
  shows "0 \<le> A \<Longrightarrow> 0 < B \<Longrightarrow> A smod B = A mod B"
    and "0 \<le> A \<Longrightarrow> B < 0 \<Longrightarrow> A smod B = A mod (- B)"
    and "A < 0 \<Longrightarrow> 0 < B \<Longrightarrow> A smod B = - ((- A) mod B)"
    and "A < 0 \<Longrightarrow> B < 0 \<Longrightarrow> A smod B = - ((- A) mod (- B))"
  by (auto simp: signed_modulo_int_def sgn_if)



lemma smod_bounds:
  fixes A B :: int
  assumes "B \<noteq> 0"
  shows "0 \<le> A \<Longrightarrow> 0 \<le> A smod B \<and> A smod B < \<bar>B\<bar>"
    and "A < 0 \<Longrightarrow> - \<bar>B\<bar> < A smod B \<and> A smod B \<le> 0"
  using assms by (auto simp: signed_modulo_int_def sgn_if)




lemma sint_word_of_int_in_range:
  fixes k :: int
  assumes "- (2 ^ (LENGTH('a::len) - 1)) \<le> k \<and> k < 2 ^ (LENGTH('a) - 1)"
  shows "sint (word_of_int k :: 'a word) = k"
  using assms by (simp add: signed_of_int signed_take_bit_int_eq_self)

lemma sint_range: "- (2 ^ (LENGTH('a::len) - 1)) \<le> sint (w :: 'a word) \<and> sint w < 2 ^ (LENGTH('a) - 1)"
  using sint_ge[of w] sint_lt[of w] by simp


lemma sint_cpp_rem:
  fixes a b :: "'a::len word"
  assumes "b \<noteq> 0"
  shows "sint (cpp_rem a b) = sint a smod sint b"
proof -
  have B: "sint b \<noteq> 0" using assms(1) by (simp add: signed_eq_0_iff)
  have "- (2 ^ (LENGTH('a) - 1)) \<le> sint a smod sint b \<and> sint a smod sint b < 2 ^ (LENGTH('a) - 1)"
    using smod_bounds[OF B, of "sint a"] sint_range[of a] sint_range[of b]
    by (cases "0 \<le> sint a") (auto simp: abs_if split: if_splits)
  then show ?thesis
    unfolding cpp_rem_def by (rule sint_word_of_int_in_range)
qed



lemma smod_eq_mod_same_sign:
  fixes S B :: int
  shows "0 < S \<Longrightarrow> 0 < B \<Longrightarrow> S smod B = S mod B"
    and "S < 0 \<Longrightarrow> B < 0 \<Longrightarrow> S smod B = S mod B"
proof -
  show "0 < S \<Longrightarrow> 0 < B \<Longrightarrow> S smod B = S mod B"
    by (simp add: smod_signs)
  assume "S < 0" "B < 0"
  then have "S smod B = - ((- S) mod (- B))" by (simp add: smod_signs)
  also have "\<dots> = S mod B" by (simp add: mod_minus_right)
  finally show "S smod B = S mod B" .
qed

lemma smod_cong_mod:
  fixes A B :: int
  shows "(B + A smod B) mod B = A mod B"
proof -
  define c :: int where "c = of_bool (sgn A \<noteq> sgn B \<and> \<not> B dvd A)"
  have "A smod B = A mod B - B * c"
    unfolding c_def by (rule signed_modulo_int_eq_modulo_int)
  then have "B + A smod B = A mod B + B * (1 - c)"
    by (simp add: algebra_simps)
  then have "(B + A smod B) mod B = (A mod B + B * (1 - c)) mod B"
    by simp
  also have "\<dots> = A mod B"
    by (simp only: mod_mult_self2 mod_mod_trivial)
  finally show ?thesis .
qed

lemma forth_mod_floor:
  fixes a b :: "'a::len word"
  assumes "b \<noteq> 0"
    and "- (2 ^ (LENGTH('a) - 1)) \<le> sint b + sint a smod sint b"
    and "sint b + sint a smod sint b < 2 ^ (LENGTH('a) - 1)"
  shows "sint (forth_mod a b) = sint a mod sint b"
proof -
  define A B R S where "A = sint a" and "B = sint b" and "R = sint a smod sint b"
    and "S = sint b + sint a smod sint b"
  have B: "B \<noteq> 0" using assms(1) by (simp add: signed_eq_0_iff B_def)
  have r: "sint (cpp_rem a b) = R"
    unfolding R_def by (rule sint_cpp_rem[OF assms(1)])
  have "b + cpp_rem a b = word_of_int S"
    unfolding S_def cpp_rem_def by simp
  then have s: "sint (b + cpp_rem a b) = S"
    using sint_word_of_int_in_range[of S, where 'a='a] assms(2,3) by (simp add: S_def)
  have "sint (forth_mod a b) = S smod B"
    unfolding forth_mod_def using sint_cpp_rem[OF assms(1), of "b + cpp_rem a b"] s
    by (simp add: B_def)
  also have "S smod B = S mod B"
  proof (cases "0 < B")
    case True
    have "- B < R" using smod_bounds[OF B, of A] True
      by (cases "0 \<le> A") (auto simp: R_def A_def B_def)
    then show ?thesis using True by (intro smod_eq_mod_same_sign(1)) (auto simp: S_def R_def B_def)
  next
    case False
    then have neg: "B < 0" using B by simp
    have "R < - B" using smod_bounds[OF B, of A] neg
      by (cases "0 \<le> A") (auto simp: R_def A_def B_def)
    then show ?thesis using neg by (intro smod_eq_mod_same_sign(2)) (auto simp: S_def R_def B_def)
  qed
  also have "S mod B = A mod B"
    unfolding S_def A_def B_def by (rule smod_cong_mod)
  finally show ?thesis by (simp add: A_def B_def)
qed

subsection \<open>Evaluating the model\<close>

text \<open>
  The equations that compute a compilation and a run on a concrete program, for the
  simplifier: the recursive functions are unfolded one call at a time.
\<close>

lemma narrow_minus_one: "(ucast (- 1 :: 64 word) :: 32 word) = - 1"
  by (rule bit_word_eqI) (auto simp: bit_simps)

lemmas compile_eval = narrow_minus_one
  parse_plain_def Let_def is_integer_def stoul_def is_space_def digit_of_def digits_value_def
  is_variable_def is_input_def is_output_def is_defined_def generic_builtin_words_def
  newline_token_def backslash_token_def CODE_defs segment_bytecode_def store_segment_def
  name_is_taken_def is_reserved_def reserved_words_def
  input_parser_words_def output_dtype_words_def index_of_def

lemmas source_eval =
  run_source_def started_def visited_def final_def ForthMachineOf_def compile_def tokenize_def
  is_token_separator_def

lemmas run_eval =
  run_def machine_begin_def reset_def run_engine_def internal_run_def
  transition_def instruction_def dispatch_def exec_builtin_def end_of_instruction_def
  after_end_of_segment_def do_loop_advance_def pop_target_depth_def
  recursion_current_depth_def do_current_depth_def stack_cannot_push_def stack_push_def
  bytecodes_pointer_push_def bytecodes_pointer_pop_def where_add_def segment_length_def
  is_segment_done_def bytecode_get_def do_loop_push_def do_steploop_push_def
  do_frame_is_current_def do_i_add_def at_index_def raise_error_def push_checked_def
  binary_op_def unary_op_def forth_bool_def op_literal_def op_halt_def op_pause_def
  op_if_def op_if_else_def op_do_def op_again_def op_until_def op_while_def op_exit_def
  op_put_def op_inc_def op_get_def op_loop_index_def op_dup_def op_drop_def op_swap_def
  op_over_def op_rot_def op_nip_def op_tuck_def op_div_def op_mod_def op_divmod_def
  op_shift_def make_outputs_def returned_def executes_def ends_do_loop_def fetched_def
  machine_is_done_def step_def resume_def
  forth_div_def forth_mod_def cpp_div_def cpp_rem_def division_overflows_def
  mod_sum_overflows_def
  signed_divide_int_def signed_modulo_int_def word_sless_alt word_sle_eq CODE_defs

subsection \<open>The engine\<close>

lemma executes_instruction:
  "executes m bytecode \<Longrightarrow> instruction single_step m = dispatch single_step bytecode (fetched m)"
  by (auto simp: executes_def instruction_def fetched_def)

lemma executes_segment: "executes m bytecode \<Longrightarrow> is_segment_done m = Some False"
  by (simp add: executes_def)

lemma transition_instruction:
  assumes "recursion_current_depth m \<noteq> target" "is_segment_done m = Some False"
  shows "transition single_step target Outer_loop m =
           (case instruction single_step m of
              Break m' \<Rightarrow> Goes_on Inner_loop m'
            | Loop_again m' \<Rightarrow> Goes_on Inner_loop m'
            | Return m' \<Rightarrow> Stops (Returned m')
            | Goto_after_end_of_segment m' \<Rightarrow>
                (case after_end_of_segment m' of
                   None \<Rightarrow> Stops Undefined
                 | Some (Inl m'') \<Rightarrow> Stops (Returned m'')
                 | Some (Inr m'') \<Rightarrow> Goes_on Outer_loop m'')
            | Undefined_behaviour \<Rightarrow> Stops Undefined
            | Unmodelled_io \<Rightarrow> Stops Unmodelled)"
  using assms by (simp add: transition_def)

lemma stack_fetched [simp]: "stack (fetched m) = stack m"
  by (simp add: fetched_def where_add_def split: list.splits prod.splits)

lemma target_fetched [simp]: "recursion_target_depth (fetched m) = recursion_target_depth m"
  by (simp add: fetched_def where_add_def split: list.splits prod.splits)

lemma dispatch_builtin:
  "\<not> bytecode <s 0 \<Longrightarrow> \<not> BOUND_DICTIONARY \<le>s bytecode \<Longrightarrow>
   dispatch single_step bytecode m =
     (case exec_builtin single_step bytecode m of
        Break m' \<Rightarrow> end_of_instruction single_step m'
      | other \<Rightarrow> other)"
  by (simp add: dispatch_def)

lemma drop_to_last: "xs \<noteq> [] \<Longrightarrow> drop (length xs - 1) xs = [last xs]"
  by (cases xs rule: rev_cases) auto

lemmas loaded_eval = loaded_def run_eval

subsection \<open>Division and modulo\<close>

text \<open>
  Claim C1, as the code has it. \<^verbatim>\<open>mod\<close> computes \<^verbatim>\<open>(b + (a % b)) % b\<close>, the floored
  modulo, whose sign is the sign of the divisor: for the cells \<open>a\<close> (below) and \<open>b\<close>
  (top) with \<open>b \<noteq> 0\<close>, unless \<open>a\<close> is the least cell and \<open>b = -1\<close>, and unless the
  sum \<^verbatim>\<open>b + (a % b)\<close> leaves the range of a cell, executing \<^verbatim>\<open>mod\<close> replaces the two
  cells with \<open>a mod b\<close> (the remainder of the floored division), and \<^verbatim>\<open>/mod\<close> leaves the
  same remainder under the floored quotient. The remainder is in \<open>[0, b)\<close> when \<open>b\<close> is
  positive and in \<open>(b, 0]\<close> when \<open>b\<close> is negative.
\<close>

theorem mod_is_floored:
  fixes m :: "('a::len word, 'i) machine"
  assumes "executes m bytecode"
    and "bytecode = CODE_MOD \<or> bytecode = CODE_DIVMOD"
    and "stack m = b # a # rest" and "b \<noteq> 0"
    and "\<not> division_overflows a b" and "\<not> mod_sum_overflows a b"
  shows "instruction single_step m =
           end_of_instruction single_step
             ((fetched m)\<lparr>stack := (if bytecode = CODE_MOD then forth_mod a b # rest
                                      else forth_div a b # forth_mod a b # rest)\<rparr>)
       \<and> sint (forth_mod a b) = sint a mod sint b
       \<and> (0 < sint b \<longrightarrow> 0 \<le> sint (forth_mod a b) \<and> sint (forth_mod a b) < sint b)
       \<and> (sint b < 0 \<longrightarrow> sint b < sint (forth_mod a b) \<and> sint (forth_mod a b) \<le> 0)"
proof -
  have "dispatch single_step bytecode (fetched m) =
          end_of_instruction single_step
             ((fetched m)\<lparr>stack := (if bytecode = CODE_MOD then forth_mod a b # rest
                                      else forth_div a b # forth_mod a b # rest)\<rparr>)"
    using assms(2-5)
    by (auto simp: dispatch_builtin exec_builtin_def CODE_defs word_sless_alt word_sle_eq
                   op_mod_def op_divmod_def)
  then have 1: "instruction single_step m =
           end_of_instruction single_step
             ((fetched m)\<lparr>stack := (if bytecode = CODE_MOD then forth_mod a b # rest
                                      else forth_div a b # forth_mod a b # rest)\<rparr>)"
    using executes_instruction[OF assms(1)] by simp
  have r: "sint (cpp_rem a b) = sint a smod sint b"
    by (rule sint_cpp_rem[OF assms(4)])
  have 2: "sint (forth_mod a b) = sint a mod sint b"
    using assms(6) unfolding mod_sum_overflows_def r
    by (intro forth_mod_floor[OF assms(4)]) auto
  have "sint b \<noteq> 0" using assms(4) by (simp add: signed_eq_0_iff)
  then show ?thesis using 1 2 by (auto simp: pos_mod_sign pos_mod_bound neg_mod_sign neg_mod_bound)
qed

theorem mod_is_floored_witness:
  "executes (loaded [0, 7, 0, - 2, CODE_MOD] [0, 5] [- 2, 7 :: 64 word] [(0, 4)]) CODE_MOD
   \<and> (- 2 :: 64 word) \<noteq> 0
   \<and> \<not> division_overflows 7 (- 2 :: 64 word) \<and> \<not> mod_sum_overflows 7 (- 2 :: 64 word)
   \<and> instruction False (loaded [0, 7, 0, - 2, CODE_MOD] [0, 5] [- 2, 7 :: 64 word] [(0, 4)])
       = Loop_again ((loaded [0, 7, 0, - 2, CODE_MOD] [0, 5] [- 1] [(0, 5)])\<lparr>count_instructions := 1\<rparr>)
   \<and> sint (forth_mod 7 (- 2 :: 64 word)) = 7 mod (- 2)
   \<and> sint (- 2 :: 64 word) < sint (forth_mod 7 (- 2 :: 64 word))
   \<and> sint (forth_mod 7 (- 2 :: 64 word)) \<le> 0"
  using mod_is_floored[of "loaded [0, 7, 0, - 2, CODE_MOD] [0, 5] [- 2, 7 :: 64 word] [(0, 4)]"
          CODE_MOD "- 2" 7 "[]" False]
  by (simp add: loaded_eval)

text \<open>
  The remainder of a negative divisor is negative: \<^verbatim>\<open>7 -2 mod\<close> leaves \<open>-1\<close>, where the
  Euclidean remainder is \<open>1\<close>.
\<close>

theorem mod_negative_divisor:
  "map_option stack (final (run_source ''7 -2 mod'' 10)) = Some [- 1 :: 64 word]"
  apply (simp add: source_eval)
  apply ((subst parse.simps, simp add: compile_eval)+)
  apply (simp add: run_eval eval_nat_numeral del: run_from.simps)
  apply ((subst run_from.simps, simp add: run_eval del: run_from.simps)+)
  done




subsection \<open>Errors\<close>

lemma where_add_keeps [simp]:
  "is_ready (where_add n m) = is_ready m" "current_error (where_add n m) = current_error m"
  "do_frames (where_add n m) = do_frames m" "stack (where_add n m) = stack m"
  "(frames (where_add n m) = []) = (frames m = [])"
  "length (frames (where_add n m)) = length (frames m)"
  "variables (where_add n m) = variables m" "stack_max_depth (where_add n m) = stack_max_depth m"
  "recursion_max_depth (where_add n m) = recursion_max_depth m"
  by (simp_all add: where_add_def split: list.splits prod.splits)

lemma running_where_add [simp]: "running_ok (where_add n m) = running_ok m"
  by (simp add: running_ok_def do_frames_inside_def)



lemma break_ok:
  "running_ok m \<Longrightarrow> frames m \<noteq> [] \<Longrightarrow> outcome_ok (Break m)"
  by (simp add: outcome_ok_def)

lemma running_stack [simp]:
  "running_ok (m\<lparr>stack := s\<rparr>) = running_ok m"
  "running_ok (m\<lparr>variables := v\<rparr>) = running_ok m"
  "running_ok (m\<lparr>count_instructions := c\<rparr>) = running_ok m"
  "running_ok (stack_push x m) = running_ok m"
  "running_ok (bytecodes_pointer_push w m) = running_ok m"
  "running_ok (bytecodes_pointer_pop m) = running_ok m"
  by (simp_all add: running_ok_def do_frames_inside_def stack_push_def
        bytecodes_pointer_push_def bytecodes_pointer_pop_def)

lemma outcome_ok_simps [simp]:
  "outcome_ok (Break m) = (running_ok m \<and> frames m \<noteq> [])"
  "outcome_ok (Loop_again m) = running_ok m"
  "outcome_ok (Goto_after_end_of_segment m) = running_ok m"
  "outcome_ok (Return m) = error_state_ok m"
  "outcome_ok Undefined_behaviour" "outcome_ok Unmodelled_io"
  by (simp_all add: outcome_ok_def)


lemma error_state_ok_count [simp]:
  "error_state_ok (m\<lparr>count_instructions := c\<rparr>) = error_state_ok m"
  "error_state_ok (m\<lparr>recursion_target_depth := t\<rparr>) = error_state_ok m"
  by (simp_all add: error_state_ok_def do_frames_inside_def split: ForthError.splits)

lemma frames_simps [simp]:
  "frames (stack_push x m) = frames m"
  by (simp add: stack_push_def)




lemma do_frames_inside_simps [simp]:
  "do_frames_inside (m\<lparr>stack := s\<rparr>) = do_frames_inside m"
  "do_frames_inside (m\<lparr>frames := f\<rparr>) = do_frames_inside m"
  "do_frames_inside (m\<lparr>count_instructions := c\<rparr>) = do_frames_inside m"
  "do_frames_inside (m\<lparr>current_error := e\<rparr>) = do_frames_inside m"
  "do_frames_inside (m\<lparr>variables := v\<rparr>) = do_frames_inside m"
  "do_frames_inside (where_add n m) = do_frames_inside m"
  by (simp_all add: do_frames_inside_def)



lemma do_i_add_keeps [simp]:
  "is_ready (do_i_add k m) = is_ready m" "current_error (do_i_add k m) = current_error m"
  "frames (do_i_add k m) = frames m" "stack (do_i_add k m) = stack m"
  by (simp_all add: do_i_add_def split: list.splits)












lemma same_error [simp]: "current_error m = e \<Longrightarrow> m\<lparr>current_error := e\<rparr> = m"
  by auto











subsection \<open>Offsets and references to segments\<close>

lemma flatten_segments_concat:
  "flatten_segments segments bcodes offsets =
     (bcodes @ concat segments,
      offsets @ map (\<lambda>k. int (length bcodes + length (concat (take k segments))))
                  [1 ..< length segments + 1])"
proof (induction segments arbitrary: bcodes offsets)
  case Nil
  then show ?case by simp
next
  case (Cons segment segments)
  have "[1 ..< length (segment # segments) + 1] = 1 # map Suc [1 ..< length segments + 1]"
    by (simp add: upt_conv_Cons map_Suc_upt del: upt_Suc)
  then show ?case
    by (simp add: Cons.IH comp_def del: upt_Suc)
qed

text \<open>The offsets of a list of segments: where each one starts, and where the last ends.\<close>

lemma flattened_offsets:
  "flatten_segments segments [] [0] =
     (concat segments, map (\<lambda>k. int (length (concat (take k segments)))) [0 ..< length segments + 1])"
proof -
  have "[0 ..< length segments + 1] = 0 # [1 ..< length segments + 1]"
    by (simp add: upt_conv_Cons del: upt_Suc)
  then show ?thesis
    by (simp add: flatten_segments_concat del: upt_Suc)
qed

lemma length_concat_take_mono:
  "i \<le> j \<Longrightarrow> length (concat (take i segments)) \<le> length (concat (take j segments))"
proof -
  assume "i \<le> j"
  then have "take j segments = take i segments @ take (j - i) (drop i segments)"
    by (metis le_add_diff_inverse take_add)
  then show ?thesis by simp
qed

lemma slice_of_concat:
  assumes "i < length segments"
  shows "take (length (concat (take (Suc i) segments)) - length (concat (take i segments)))
           (drop (length (concat (take i segments))) (concat segments)) = segments ! i"
proof -
  have s: "segments = take i segments @ segments ! i # drop (Suc i) segments"
    using assms by (rule id_take_nth_drop)
  have t: "take (Suc i) segments = take i segments @ [segments ! i]"
    using assms by (rule take_Suc_conv_app_nth)
  have "concat segments = concat (take i segments) @ segments ! i @ concat (drop (Suc i) segments)"
    by (subst s) simp
  then show ?thesis by (simp add: t)
qed

lemma valid_ref_mono: "n \<le> n' \<Longrightarrow> valid_ref n b \<Longrightarrow> valid_ref n' b"
  by (simp add: valid_ref_def)

lemma refs_ok_mono: "n \<le> n' \<Longrightarrow> refs_ok n xs \<Longrightarrow> refs_ok n' xs"
proof (induction n xs rule: refs_ok.induct)
  case (1 n)
  then show ?case by simp
next
  case (2 n b rest)
  have "list_all (valid_ref n) ys \<Longrightarrow> list_all (valid_ref n') ys" for ys
    using valid_ref_mono[OF \<open>n \<le> n'\<close>] by (induction ys) auto
  then show ?case using 2 valid_ref_mono[OF \<open>n \<le> n'\<close>] by auto
qed

lemma refs_ok_append: "refs_ok n xs \<Longrightarrow> refs_ok n ys \<Longrightarrow> refs_ok n (xs @ ys)"
proof (induction n xs rule: refs_ok.induct)
  case (1 n)
  then show ?case by simp
next
  case (2 n b rest)
  then show ?case by simp
qed

lemma valid_ref_is_call:
  assumes "valid_ref n b"
  shows "operand_slots b = 0" and "\<not> operands_are_segments b"
  using assms
  by (auto simp: valid_ref_def operand_slots_def operands_are_segments_def CODE_defs
                 word_sle_eq word_sless_alt)

lemma refs_ok_calls: "list_all (valid_ref n) bs \<Longrightarrow> refs_ok n bs"
  by (induction bs) (auto simp: valid_ref_is_call)

lemma refs_ok_snoc_calls:
  "refs_ok n xs \<Longrightarrow> list_all (valid_ref n) bs \<Longrightarrow> refs_ok n (xs @ bs)"
  by (simp add: refs_ok_append refs_ok_calls)

lemma list_all_filter_zip:
  "list_all P ys \<Longrightarrow> list_all P (map snd (filter Q (zip xs ys)))"
  by (auto simp: list_all_iff dest: set_zip_rightD)

lemma builtin_word_is_plain:
  assumes "map_of generic_builtin_words word = Some code"
  shows "operand_slots code = 0" and "\<not> BOUND_DICTIONARY \<le>s code"
proof -
  from assms have "code \<in> snd ` set generic_builtin_words"
    by (metis map_of_SomeD image_eqI snd_conv)
  then have "code \<in> set (map of_nat [22 ..< 59])"
    unfolding generic_builtin_words_def CODE_defs by (simp add: upt_rec)
  then have range: "22 \<le> sint code \<and> sint code \<le> 58"
    by (simp add: upt_rec) (elim disjE; simp)
  show "operand_slots code = 0"
    using range by (auto simp: operand_slots_def CODE_defs word_sless_alt)
  show "\<not> BOUND_DICTIONARY \<le>s code"
    using range by (simp add: BOUND_DICTIONARY_def word_sle_eq)
qed

lemma parser_word_read:
  assumes "parser_word p = Some b"
  shows "operand_slots (NOT b) = 1" and "operand_slots (NOT (b OR READ_DIRECT)) = 2"
    and "\<not> BOUND_DICTIONARY \<le>s NOT b" and "\<not> BOUND_DICTIONARY \<le>s NOT (b OR READ_DIRECT)"
    and "\<not> operands_are_segments (NOT b)" and "\<not> operands_are_segments (NOT (b OR READ_DIRECT))"
proof -
  from assms have "b \<in> (\<lambda>(f, t). f OR t) `
      (set [0, READ_REPEATED, READ_BIGENDIAN, READ_REPEATED OR READ_BIGENDIAN]
       \<times> set [READ_BOOL, READ_INT8, READ_INT16, READ_INT32, READ_INT64, READ_INTP, READ_UINT8,
              READ_UINT16, READ_UINT32, READ_UINT64, READ_UINTP, READ_FLOAT32, READ_FLOAT64])"
    by (auto simp: parser_word_def read_type_of_def Let_def
             split: if_splits list.splits option.splits)
  then have "b \<in> set (map word_of_int ([8, 16, 24, 32, 40, 48, 56, 64, 72, 80, 88, 96, 104]
                     @ [10, 18, 26, 34, 42, 50, 58, 66, 74, 82, 90, 98, 106]
                     @ [12, 20, 28, 36, 44, 52, 60, 68, 76, 84, 92, 100, 108]
                     @ [14, 22, 30, 38, 46, 54, 62, 70, 78, 86, 94, 102, 110]))"
    by (auto simp: READ_defs)
  then have cases: "b = 8 \<or> b = 16 \<or> b = 24 \<or> b = 32 \<or> b = 40 \<or> b = 48 \<or> b = 56 \<or> b = 64
      \<or> b = 72 \<or> b = 80 \<or> b = 88 \<or> b = 96 \<or> b = 104
      \<or> b = 10 \<or> b = 18 \<or> b = 26 \<or> b = 34 \<or> b = 42 \<or> b = 50 \<or> b = 58 \<or> b = 66
      \<or> b = 74 \<or> b = 82 \<or> b = 90 \<or> b = 98 \<or> b = 106
      \<or> b = 12 \<or> b = 20 \<or> b = 28 \<or> b = 36 \<or> b = 44 \<or> b = 52 \<or> b = 60 \<or> b = 68
      \<or> b = 76 \<or> b = 84 \<or> b = 92 \<or> b = 100 \<or> b = 108
      \<or> b = 14 \<or> b = 22 \<or> b = 30 \<or> b = 38 \<or> b = 46 \<or> b = 54 \<or> b = 62 \<or> b = 70
      \<or> b = 78 \<or> b = 86 \<or> b = 94 \<or> b = 102 \<or> b = 110"
    by simp
  show "operand_slots (NOT b) = 1"
    using cases by (elim disjE) (simp_all add: operand_slots_def READ_defs word_sless_alt)
  show "operand_slots (NOT (b OR READ_DIRECT)) = 2"
    using cases by (elim disjE) (simp_all add: operand_slots_def READ_defs word_sless_alt)
  show "\<not> BOUND_DICTIONARY \<le>s NOT b"
    using cases by (elim disjE) (simp_all add: BOUND_DICTIONARY_def word_sle_eq)
  show "\<not> BOUND_DICTIONARY \<le>s NOT (b OR READ_DIRECT)"
    using cases by (elim disjE) (simp_all add: BOUND_DICTIONARY_def READ_defs word_sle_eq)
  show "\<not> operands_are_segments (NOT b)"
    using cases by (elim disjE) (simp_all add: operands_are_segments_def CODE_defs)
  show "\<not> operands_are_segments (NOT (b OR READ_DIRECT))"
    using cases by (elim disjE) (simp_all add: operands_are_segments_def CODE_defs READ_defs)
qed

lemma tables_kept_refl: "tables_kept m m"
  by (simp add: tables_kept_def)

lemma tables_kept_trans: "tables_kept m m1 \<Longrightarrow> tables_kept m1 m2 \<Longrightarrow> tables_kept m m2"
  by (auto simp: tables_kept_def)

lemma parse_post_refl: "parse_post bcodes dictionary m bcodes dictionary m"
  by (simp add: parse_post_def tables_kept_refl)

lemma parse_post_trans:
  assumes "parse_post b d m b1 d1 m1" and "parse_post b1 d1 m1 b2 d2 m2"
  shows "parse_post b d m b2 d2 m2"
  using assms unfolding parse_post_def
  by (meson le_trans tables_kept_trans)

lemma segment_post_start:
  assumes "tables_kept m m0"
    and "dictionary_bytecodes m0 = dictionary_bytecodes m"
  shows "segment_post [] bcodes dictionary m dictionary m0"
  using assms by (simp add: segment_post_def references_valid_def)

lemma store_segment_valid:
  assumes "store_segment d2 r body = Inr d3"
  shows "length d3 = length d2" and "length d2 \<le> n \<Longrightarrow> valid_ref n r"
    and "list_all (refs_ok n) d2 \<Longrightarrow> refs_ok n body \<Longrightarrow> list_all (refs_ok n) d3"
proof -
  from assms have d3: "d3 = d2[nat (sint r - sint BOUND_DICTIONARY) := body]"
    and r: "0 \<le> sint r - sint BOUND_DICTIONARY" "sint r - sint BOUND_DICTIONARY < int (length d2)"
    by (auto simp: store_segment_def split: if_splits)
  show "length d3 = length d2" by (simp add: d3)
  show "length d2 \<le> n \<Longrightarrow> valid_ref n r"
    using r by (simp add: valid_ref_def word_sle_eq)
  show "list_all (refs_ok n) d2 \<Longrightarrow> refs_ok n body \<Longrightarrow> list_all (refs_ok n) d3"
    unfolding d3 list_all_iff by (auto dest!: set_update_subset_insert[THEN subsetD])
qed

text \<open>A body parsed into a fresh segment and stored.\<close>

lemma segment_post_body:
  assumes before: "segment_post refs bcodes dictionary m d1 m1"
    and body: "parse_post [] (d1 @ [[]]) m0 body d2 m2"
    and stored: "store_segment d2 (segment_bytecode d1) body = Inr d3"
    and m0: "tables_kept m1 m0"
      "dictionary_bytecodes m0 = dictionary_bytecodes m1
       \<or> dictionary_bytecodes m0 = dictionary_bytecodes m1 @ [segment_bytecode d1]"
  shows "segment_post (refs @ [segment_bytecode d1]) bcodes dictionary m d3 m2"
proof -
  note st = store_segment_valid[OF stored]
  have len: "length d1 < length d2" "length dictionary \<le> length d1"
    using body before by (auto simp: parse_post_def segment_post_def)
  have tk: "tables_kept m m2"
    using before body m0(1) unfolding parse_post_def segment_post_def
    by (meson tables_kept_trans)
  have "list_all (valid_ref n) (refs @ [segment_bytecode d1]) \<and> references_valid n bcodes d3 m2"
    if n: "length d3 \<le> n" and valid: "references_valid n bcodes dictionary m" for n
  proof -
    have n2: "length d2 \<le> n" using n st(1) by simp
    then have n1: "length d1 \<le> n" using len by simp
    from before n1 valid have 1: "list_all (valid_ref n) refs" "references_valid n bcodes d1 m1"
      by (auto simp: segment_post_def)
    have r: "valid_ref n (segment_bytecode d1)" using st(2)[OF n2] .
    have "references_valid n [] (d1 @ [[]]) m0"
      using 1(2) r m0(2) by (auto simp: references_valid_def)
    then have 2: "references_valid n body d2 m2"
      using body n2 by (simp add: parse_post_def)
    then have "list_all (refs_ok n) d3"
      using st(3)[of n] by (simp add: references_valid_def)
    then show ?thesis
      using 1 2 r by (simp add: references_valid_def)
  qed
  then show ?thesis
    using len tk st(1) by (simp add: segment_post_def)
qed

text \<open>The instruction that refers to the stored bodies is appended.\<close>

lemma segment_post_emit:
  assumes "segment_post refs bcodes dictionary m d' m'"
    and "\<And>n. list_all (valid_ref n) refs \<Longrightarrow> refs_ok n instr"
  shows "parse_post bcodes dictionary m (bcodes @ instr) d' m'"
  using assms unfolding segment_post_def parse_post_def references_valid_def
  by (auto intro: refs_ok_append)

lemma control_codes:
  "operand_slots CODE_IF = 1" "operand_slots CODE_IF_ELSE = 2" "operand_slots CODE_DO = 0"
  "operand_slots CODE_DO_STEP = 0" "operand_slots CODE_AGAIN = 0" "operand_slots CODE_UNTIL = 0"
  "operand_slots CODE_WHILE = 1"
  "operands_are_segments CODE_IF" "operands_are_segments CODE_IF_ELSE"
  "operands_are_segments CODE_WHILE" "\<not> operands_are_segments CODE_DO"
  "\<not> operands_are_segments CODE_DO_STEP" "\<not> operands_are_segments CODE_AGAIN"
  "\<not> operands_are_segments CODE_UNTIL"
  "\<not> BOUND_DICTIONARY \<le>s CODE_IF" "\<not> BOUND_DICTIONARY \<le>s CODE_IF_ELSE"
  "\<not> BOUND_DICTIONARY \<le>s CODE_DO" "\<not> BOUND_DICTIONARY \<le>s CODE_DO_STEP"
  "\<not> BOUND_DICTIONARY \<le>s CODE_AGAIN" "\<not> BOUND_DICTIONARY \<le>s CODE_UNTIL"
  "\<not> BOUND_DICTIONARY \<le>s CODE_WHILE"
  by (simp_all add: operand_slots_def operands_are_segments_def CODE_defs word_sle_eq
        word_sless_alt)

lemma refs_ok_control:
  "valid_ref n r \<Longrightarrow> refs_ok n [CODE_IF, r]"
  "valid_ref n r \<Longrightarrow> valid_ref n r' \<Longrightarrow> refs_ok n [CODE_IF_ELSE, r, r']"
  "valid_ref n r \<Longrightarrow> refs_ok n [CODE_DO, r]"
  "valid_ref n r \<Longrightarrow> refs_ok n [CODE_DO_STEP, r]"
  "valid_ref n r \<Longrightarrow> refs_ok n [r, CODE_AGAIN]"
  "valid_ref n r \<Longrightarrow> refs_ok n [r, CODE_UNTIL]"
  "valid_ref n r \<Longrightarrow> valid_ref n r' \<Longrightarrow> refs_ok n [r, CODE_WHILE, r']"
  by (simp_all add: valid_ref_is_call control_codes)

lemma parse_plain_post:
  assumes "parse_plain defn tokenized pos stop bcodes exitdepth dodepth m = Inr (pos', bcodes', m')"
  shows "parse_post bcodes dictionary m bcodes' dictionary m'"
proof -
  have plain: "refs_ok n [c]" if "operand_slots c = 0" "\<not> BOUND_DICTIONARY \<le>s c" for n c
    using that by simp
  have operand: "refs_ok n [c, x]"
    if "operand_slots c = 1" "\<not> BOUND_DICTIONARY \<le>s c" "\<not> operands_are_segments c" for n c x
    using that by simp
  have two: "refs_ok n [c, x, y]"
    if "operand_slots c = 2" "\<not> BOUND_DICTIONARY \<le>s c" "\<not> operands_are_segments c" for n c x y
    using that by simp
  have codes:
    "operand_slots CODE_HALT = 0" "operand_slots CODE_PAUSE = 0"
    "\<not> BOUND_DICTIONARY \<le>s CODE_HALT" "\<not> BOUND_DICTIONARY \<le>s CODE_PAUSE"
    "\<And>c. c \<in> set [CODE_LITERAL, CODE_EXIT, CODE_PUT, CODE_INC, CODE_GET, CODE_LEN_INPUT,
                      CODE_POS, CODE_END, CODE_SEEK, CODE_SKIP, CODE_WRITE, CODE_LEN_OUTPUT,
                      CODE_REWIND]
         \<Longrightarrow> operand_slots c = 1 \<and> \<not> BOUND_DICTIONARY \<le>s c \<and> \<not> operands_are_segments c"
    by (auto simp: operand_slots_def operands_are_segments_def CODE_defs word_sle_eq
          word_sless_alt)
  have emitted: "\<exists>instr. bcodes' = bcodes @ instr
      \<and> (\<forall>n. list_all (valid_ref n) (dictionary_bytecodes m) \<longrightarrow> refs_ok n instr)"
    and kept: "tables_kept m m'" "dictionary_bytecodes m' = dictionary_bytecodes m"
    using assms unfolding parse_plain_def Let_def
    by (auto split: if_splits sum.splits bool.splits option.splits
             simp: tables_kept_def plain operand two codes builtin_word_is_plain
                   parser_word_read parser_word_read[unfolded bit.de_Morgan_disj]
                   refs_ok_calls list_all_filter_zip)
  then show ?thesis
    unfolding parse_post_def references_valid_def
    by (auto intro: refs_ok_append)
qed

lemma parse_keeps:
  "parse defn tokenized pos stop bcodes dictionary exitdepth dodepth m = Inr (bF, dF, mF)
   \<Longrightarrow> parse_post bcodes dictionary m bF dF mF"
proof (induction defn tokenized pos stop bcodes dictionary exitdepth dodepth m
         arbitrary: bF dF mF rule: parse.induct)
  case (1 defn tokenized pos stop bcodes dictionary exitdepth dodepth m)
  note IH = "1.IH" and top = "1.prems"
  note start = segment_post_start[OF tables_kept_refl refl, of bcodes dictionary m]
  note unf = parse.simps[of defn tokenized pos stop bcodes dictionary exitdepth dodepth m]
  show ?case
  proof (cases "stop \<le> pos")
    case True
    with top[unfolded unf] show ?thesis
      by (simp add: parse_post_refl)
  next
    case ns: False
    consider (comment) "tokenized ! pos = ''(''"
      | (line) "tokenized ! pos \<noteq> ''(''" "tokenized ! pos = backslash_token"
      | (newline) "tokenized ! pos \<noteq> ''(''" "tokenized ! pos \<noteq> backslash_token"
          "tokenized ! pos = newline_token"
      | (empty) "tokenized ! pos \<noteq> ''(''" "tokenized ! pos \<noteq> backslash_token"
          "tokenized ! pos \<noteq> newline_token" "tokenized ! pos = []"
      | (colon) "tokenized ! pos \<noteq> ''(''" "tokenized ! pos \<noteq> backslash_token"
          "tokenized ! pos \<noteq> newline_token" "tokenized ! pos \<noteq> []" "tokenized ! pos = '':''"
      | (cond) "tokenized ! pos \<noteq> ''(''" "tokenized ! pos \<noteq> backslash_token"
          "tokenized ! pos \<noteq> newline_token" "tokenized ! pos \<noteq> []" "tokenized ! pos \<noteq> '':''"
          "tokenized ! pos = ''if''"
      | (counted) "tokenized ! pos \<noteq> ''(''" "tokenized ! pos \<noteq> backslash_token"
          "tokenized ! pos \<noteq> newline_token" "tokenized ! pos \<noteq> []" "tokenized ! pos \<noteq> '':''"
          "tokenized ! pos \<noteq> ''if''" "tokenized ! pos = ''do''"
      | (indefinite) "tokenized ! pos \<noteq> ''(''" "tokenized ! pos \<noteq> backslash_token"
          "tokenized ! pos \<noteq> newline_token" "tokenized ! pos \<noteq> []" "tokenized ! pos \<noteq> '':''"
          "tokenized ! pos \<noteq> ''if''" "tokenized ! pos \<noteq> ''do''" "tokenized ! pos = ''begin''"
      | (plain) "tokenized ! pos \<noteq> ''(''" "tokenized ! pos \<noteq> backslash_token"
          "tokenized ! pos \<noteq> newline_token" "tokenized ! pos \<noteq> []" "tokenized ! pos \<noteq> '':''"
          "tokenized ! pos \<noteq> ''if''" "tokenized ! pos \<noteq> ''do''" "tokenized ! pos \<noteq> ''begin''"
      by blast
    then show ?thesis
    proof cases
      case comment
      from top[unfolded unf] ns comment obtain substop
        where sc: "scan_comment tokenized stop pos 1 = Some substop"
          and rest: "parse defn tokenized (substop + 1) stop bcodes dictionary exitdepth dodepth m
                       = Inr (bF, dF, mF)"
        by (auto split: option.splits)
      show ?thesis by (rule IH(1)[OF ns comment sc rest])
    next
      case line
      from top[unfolded unf] ns line
      have rest: "parse defn tokenized (scan_line tokenized stop pos + 1) stop bcodes dictionary
                    exitdepth dodepth m = Inr (bF, dF, mF)"
        by simp
      show ?thesis by (rule IH(2)[OF ns line rest])
    next
      case newline
      from top[unfolded unf] ns newline
      have rest: "parse defn tokenized (pos + 1) stop bcodes dictionary exitdepth dodepth m
                    = Inr (bF, dF, mF)"
        by simp
      show ?thesis by (rule IH(3)[OF ns newline rest])
    next
      case empty
      from top[unfolded unf] ns empty
      have rest: "parse defn tokenized (pos + 1) stop bcodes dictionary exitdepth dodepth m
                    = Inr (bF, dF, mF)"
        by simp
      show ?thesis by (rule IH(4)[OF ns empty rest])
    next
      case colon
      let ?m0 = "m\<lparr>dictionary_names := dictionary_names m @ [tokenized ! (pos + 1)],
                    dictionary_bytecodes := dictionary_bytecodes m @ [segment_bytecode dictionary]\<rparr>"
      from top[unfolded unf] ns colon obtain substop body d2 m2 d3
        where guard: "\<not> (stop \<le> pos + 1 \<or> tokenized ! (pos + 1) = '';'')"
          and free: "name_is_taken m (tokenized ! (pos + 1)) = Inr False"
          and sc: "scan_definition tokenized stop (pos + 1) 1 = Some substop"
          and body: "parse (tokenized ! (pos + 1)) tokenized (pos + 2) substop []
                       (dictionary @ [[]]) 0 0 ?m0 = Inr (body, d2, m2)"
          and st: "store_segment d2 (segment_bytecode dictionary) body = Inr d3"
          and rest: "parse defn tokenized (substop + 1) stop bcodes d3 exitdepth dodepth m2
                       = Inr (bF, dF, mF)"
        by (auto split: if_splits sum.splits bool.splits option.splits prod.splits)
      have pb: "parse_post [] (dictionary @ [[]]) ?m0 body d2 m2"
        by (rule IH(5)[OF ns colon guard free refl sc body])
      have sp: "segment_post ([] @ [segment_bytecode dictionary]) bcodes dictionary m d3 m2"
        by (rule segment_post_body[OF start pb st]) (simp_all add: tables_kept_def)
      have p1: "parse_post bcodes dictionary m bcodes d3 m2"
        using segment_post_emit[OF sp, of "[]"] by simp
      have p2: "parse_post bcodes d3 m2 bF dF mF"
        by (rule IH(6)[OF ns colon guard free refl sc body refl refl st rest])
      show ?thesis by (rule parse_post_trans[OF p1 p2])
    next
      case cond
      from top[unfolded unf] ns cond obtain substop subelse
        where sc: "scan_if tokenized stop pos 1 None = Some (substop, subelse)"
        by (auto split: option.splits)
      show ?thesis
      proof (cases subelse)
        case None
        from top[unfolded unf] ns cond sc None obtain body d2 m2 d3
          where body: "parse defn tokenized (pos + 1) substop [] (dictionary @ [[]])
                         (exitdepth + 1) dodepth m = Inr (body, d2, m2)"
            and st: "store_segment d2 (segment_bytecode dictionary) body = Inr d3"
            and rest: "parse defn tokenized (substop + 1) stop
                         (bcodes @ [CODE_IF, segment_bytecode dictionary]) d3 exitdepth dodepth m2
                       = Inr (bF, dF, mF)"
          by (auto split: sum.splits prod.splits)
        note sc' = sc[unfolded None]
        have pb: "parse_post [] (dictionary @ [[]]) m body d2 m2"
          by (rule IH(7)[OF ns cond sc' refl refl body])
        have sp: "segment_post ([] @ [segment_bytecode dictionary]) bcodes dictionary m d3 m2"
          by (rule segment_post_body[OF start pb st]) (simp_all add: tables_kept_refl)
        have p1: "parse_post bcodes dictionary m
                    (bcodes @ [CODE_IF, segment_bytecode dictionary]) d3 m2"
          by (rule segment_post_emit[OF sp]) (simp add: refs_ok_control del: refs_ok.simps)
        have p2: "parse_post (bcodes @ [CODE_IF, segment_bytecode dictionary]) d3 m2 bF dF mF"
          by (rule IH(8)[OF ns cond sc' refl refl body refl refl st rest])
        show ?thesis by (rule parse_post_trans[OF p1 p2])
      next
        case (Some else_at)
        from top[unfolded unf] ns cond sc Some obtain body d2 m2 d3 body' d4 m4 d5
          where body: "parse defn tokenized (pos + 1) else_at [] (dictionary @ [[]])
                         (exitdepth + 1) dodepth m = Inr (body, d2, m2)"
            and st: "store_segment d2 (segment_bytecode dictionary) body = Inr d3"
            and body': "parse defn tokenized (else_at + 1) substop [] (d3 @ [[]])
                          (exitdepth + 1) dodepth m2 = Inr (body', d4, m4)"
            and st': "store_segment d4 (segment_bytecode d3) body' = Inr d5"
            and rest: "parse defn tokenized (substop + 1) stop
                         (bcodes @ [CODE_IF_ELSE, segment_bytecode dictionary, segment_bytecode d3])
                         d5 exitdepth dodepth m4
                       = Inr (bF, dF, mF)"
          by (auto split: sum.splits prod.splits)
        note sc' = sc[unfolded Some]
        have pb: "parse_post [] (dictionary @ [[]]) m body d2 m2"
          by (rule IH(9)[OF ns cond sc' refl refl body])
        have sp: "segment_post ([] @ [segment_bytecode dictionary]) bcodes dictionary m d3 m2"
          by (rule segment_post_body[OF start pb st]) (simp_all add: tables_kept_refl)
        have pb': "parse_post [] (d3 @ [[]]) m2 body' d4 m4"
          by (rule IH(10)[OF ns cond sc' refl refl body refl refl st body'])
        have sp': "segment_post (([] @ [segment_bytecode dictionary]) @ [segment_bytecode d3])
                     bcodes dictionary m d5 m4"
          by (rule segment_post_body[OF sp pb' st']) (simp_all add: tables_kept_refl)
        have p1: "parse_post bcodes dictionary m
                    (bcodes @ [CODE_IF_ELSE, segment_bytecode dictionary, segment_bytecode d3]) d5 m4"
          by (rule segment_post_emit[OF sp']) (simp add: refs_ok_control del: refs_ok.simps)
        have p2: "parse_post
                    (bcodes @ [CODE_IF_ELSE, segment_bytecode dictionary, segment_bytecode d3])
                    d5 m4 bF dF mF"
          by (rule IH(11)[OF ns cond sc' refl refl body refl refl st body' refl refl st' rest])
        show ?thesis by (rule parse_post_trans[OF p1 p2])
      qed
    next
      case counted
      from top[unfolded unf] ns counted obtain substop is_step body d2 m2 d3
        where sc: "scan_do tokenized stop pos 1 False = Some (substop, is_step)"
          and body: "parse defn tokenized (pos + 1) substop [] (dictionary @ [[]])
                       (exitdepth + 1) (dodepth + 1) m = Inr (body, d2, m2)"
          and st: "store_segment d2 (segment_bytecode dictionary) body = Inr d3"
          and rest: "parse defn tokenized (substop + 1) stop
                       (bcodes @ [if is_step then CODE_DO_STEP else CODE_DO,
                                  segment_bytecode dictionary]) d3 exitdepth dodepth m2
                     = Inr (bF, dF, mF)"
        by (auto split: option.splits sum.splits prod.splits)
      have pb: "parse_post [] (dictionary @ [[]]) m body d2 m2"
        by (rule IH(12)[OF ns counted sc refl body])
      have sp: "segment_post ([] @ [segment_bytecode dictionary]) bcodes dictionary m d3 m2"
        by (rule segment_post_body[OF start pb st]) (simp_all add: tables_kept_refl)
      have p1: "parse_post bcodes dictionary m
                  (bcodes @ [if is_step then CODE_DO_STEP else CODE_DO,
                             segment_bytecode dictionary]) d3 m2"
        by (rule segment_post_emit[OF sp]) (simp add: refs_ok_control del: refs_ok.simps)
      have p2: "parse_post (bcodes @ [if is_step then CODE_DO_STEP else CODE_DO,
                                      segment_bytecode dictionary]) d3 m2 bF dF mF"
        by (rule IH(13)[OF ns counted sc refl body refl refl st rest])
      show ?thesis by (rule parse_post_trans[OF p1 p2])
    next
      case indefinite
      from top[unfolded unf] ns indefinite obtain substop is_again subwhile
        where sc: "scan_begin tokenized stop pos 1 False None = Inr (substop, is_again, subwhile)"
        by (auto split: sum.splits)
      show ?thesis
      proof (cases "is_again \<or> subwhile = None")
        case True
        from top[unfolded unf] ns indefinite sc True obtain body d2 m2 d3
          where body: "parse defn tokenized (pos + 1) substop [] (dictionary @ [[]])
                         (exitdepth + 1) dodepth m = Inr (body, d2, m2)"
            and st: "store_segment d2 (segment_bytecode dictionary) body = Inr d3"
            and rest: "parse defn tokenized (substop + 1) stop
                         (bcodes @ [segment_bytecode dictionary,
                                    if is_again then CODE_AGAIN else CODE_UNTIL])
                         d3 exitdepth dodepth m2
                       = Inr (bF, dF, mF)"
          by (auto split: sum.splits prod.splits)
        have pb: "parse_post [] (dictionary @ [[]]) m body d2 m2"
          by (rule IH(14)[OF ns indefinite sc refl refl True body])
        have sp: "segment_post ([] @ [segment_bytecode dictionary]) bcodes dictionary m d3 m2"
          by (rule segment_post_body[OF start pb st]) (simp_all add: tables_kept_refl)
        have p1: "parse_post bcodes dictionary m
                    (bcodes @ [segment_bytecode dictionary,
                               if is_again then CODE_AGAIN else CODE_UNTIL]) d3 m2"
          by (rule segment_post_emit[OF sp]) (simp add: refs_ok_control del: refs_ok.simps)
        have p2: "parse_post (bcodes @ [segment_bytecode dictionary,
                                        if is_again then CODE_AGAIN else CODE_UNTIL])
                    d3 m2 bF dF mF"
          by (rule IH(15)[OF ns indefinite sc refl refl True body refl refl st rest])
        show ?thesis by (rule parse_post_trans[OF p1 p2])
      next
        case False
        from top[unfolded unf] ns indefinite sc False obtain body d2 m2 d3 body' d4 m4 d5
          where body: "parse defn tokenized (pos + 1) (the subwhile) [] (dictionary @ [[]])
                         (exitdepth + 1) dodepth m = Inr (body, d2, m2)"
            and st: "store_segment d2 (segment_bytecode dictionary) body = Inr d3"
            and body': "parse defn tokenized (the subwhile + 1) substop [] (d3 @ [[]])
                          (exitdepth + 1) dodepth m2 = Inr (body', d4, m4)"
            and st': "store_segment d4 (segment_bytecode d3) body' = Inr d5"
            and rest: "parse defn tokenized (substop + 1) stop
                         (bcodes @ [segment_bytecode dictionary, CODE_WHILE, segment_bytecode d3])
                         d5 exitdepth dodepth m4
                       = Inr (bF, dF, mF)"
          by (auto split: sum.splits prod.splits)
        have pb: "parse_post [] (dictionary @ [[]]) m body d2 m2"
          by (rule IH(16)[OF ns indefinite sc refl refl False body])
        have sp: "segment_post ([] @ [segment_bytecode dictionary]) bcodes dictionary m d3 m2"
          by (rule segment_post_body[OF start pb st]) (simp_all add: tables_kept_refl)
        have pb': "parse_post [] (d3 @ [[]]) m2 body' d4 m4"
          by (rule IH(17)[OF ns indefinite sc refl refl False body refl refl st body'])
        have sp': "segment_post (([] @ [segment_bytecode dictionary]) @ [segment_bytecode d3])
                     bcodes dictionary m d5 m4"
          by (rule segment_post_body[OF sp pb' st']) (simp_all add: tables_kept_refl)
        have p1: "parse_post bcodes dictionary m
                    (bcodes @ [segment_bytecode dictionary, CODE_WHILE, segment_bytecode d3]) d5 m4"
          by (rule segment_post_emit[OF sp']) (simp add: refs_ok_control del: refs_ok.simps)
        have p2: "parse_post
                    (bcodes @ [segment_bytecode dictionary, CODE_WHILE, segment_bytecode d3])
                    d5 m4 bF dF mF"
          by (rule IH(18)[OF ns indefinite sc refl refl False body refl refl st body' refl refl
                             st' rest])
        show ?thesis by (rule parse_post_trans[OF p1 p2])
      qed
    next
      case plain
      from top[unfolded unf] ns plain obtain pos' bcodes' m'
        where pl: "parse_plain defn tokenized pos stop bcodes exitdepth dodepth m
                     = Inr (pos', bcodes', m')"
          and rest: "parse defn tokenized pos' stop bcodes' dictionary exitdepth dodepth m'
                       = Inr (bF, dF, mF)"
        by (auto split: sum.splits prod.splits)
      have p1: "parse_post bcodes dictionary m bcodes' dictionary m'"
        by (rule parse_plain_post[OF pl])
      have p2: "parse_post bcodes' dictionary m' bF dF mF"
        by (rule IH(19)[OF ns plain pl refl refl rest])
      show ?thesis by (rule parse_post_trans[OF p1 p2])
    qed
  qed
qed

text \<open>What \<^verbatim>\<open>compile\<close> makes of the segments that \<^verbatim>\<open>parse\<close> returns.\<close>

lemma compiled_segments:
  assumes "ForthMachineOf source smax rmax osize = Inr (m :: ('a::len word, 'i) machine)"
  obtains segments :: "bytecode list list" and m1 :: "('a word, 'i) machine" where
    "segments \<noteq> []"
    "bytecodes m = concat segments"
    "bytecodes_offsets m
       = map (\<lambda>k. int (length (concat (take k segments)))) [0 ..< length segments + 1]"
    "list_all (refs_ok (length segments)) segments"
    "list_all (valid_ref (length segments)) (dictionary_bytecodes m)"
    "recursion_max_depth m = rmax"
    "length (output_dtypes m) = length (output_names m)"
proof -
  let ?m0 = "\<lparr>bytecodes = [], bytecodes_offsets = [], variable_names = [], variables = [],
        input_names = [], output_names = [], output_dtypes = [], dictionary_names = [],
        dictionary_bytecodes = [], output_initial_size = osize,
        stack_max_depth = smax, recursion_max_depth = rmax,
        stack = [], current_inputs = [], current_outputs = [], is_ready = False,
        frames = [], recursion_target_depth = [], do_frames = [], current_error = none,
        count_instructions = 0\<rparr> :: ('a word, 'i) machine"
  from assms obtain bF dF m1 where
    p: "parse [] (tokenize source) 0 (length (tokenize source)) [] [[]] 0 0 ?m0 = Inr (bF, dF, m1)"
    and m: "m = m1\<lparr>bytecodes := fst (flatten_segments (dF[0 := bF]) (bytecodes m1)
                                     (bytecodes_offsets m1 @ [0])),
                    bytecodes_offsets := snd (flatten_segments (dF[0 := bF]) (bytecodes m1)
                                     (bytecodes_offsets m1 @ [0]))\<rparr>"
    by (auto simp: ForthMachineOf_def compile_def split: sum.splits prod.splits)
  have post: "parse_post [] [[]] ?m0 bF dF m1"
    by (rule parse_keeps[OF p])
  then have len: "1 \<le> length dF" and kept: "tables_kept ?m0 m1"
    by (simp_all add: parse_post_def)
  have "references_valid (length dF) [] [[]] ?m0"
    by (simp add: references_valid_def)
  with post have valid: "references_valid (length dF) bF dF m1"
    by (simp add: parse_post_def)
  let ?segments = "dF[0 := bF]"
  have flat: "flatten_segments ?segments (bytecodes m1) (bytecodes_offsets m1 @ [0])
                = (concat ?segments,
                   map (\<lambda>k. int (length (concat (take k ?segments)))) [0 ..< length ?segments + 1])"
    using kept flattened_offsets[of ?segments] by (simp add: tables_kept_def)
  have all: "list_all (refs_ok (length ?segments)) ?segments"
    using valid unfolding references_valid_def list_all_iff
    by (auto dest!: set_update_subset_insert[THEN subsetD])
  show thesis
  proof (rule that[of ?segments])
    show "?segments \<noteq> []" using len by auto
    show "bytecodes m = concat ?segments" by (simp add: m flat)
    show "bytecodes_offsets m
            = map (\<lambda>k. int (length (concat (take k ?segments)))) [0 ..< length ?segments + 1]"
      by (simp add: m flat)
    show "list_all (refs_ok (length ?segments)) ?segments" by (rule all)
    show "list_all (valid_ref (length ?segments)) (dictionary_bytecodes m)"
      using valid by (simp add: m references_valid_def)
    show "recursion_max_depth m = rmax" using kept by (simp add: m tables_kept_def)
    show "length (output_dtypes m) = length (output_names m)"
      using kept by (simp add: m tables_kept_def)
  qed
qed


text \<open>
  Claim C4, as the code has it. For every source text that compiles, the offsets are
  at least two, in non-decreasing order (an empty segment repeats an offset), the first
  is 0 and the last is the number of bytecodes; and with \<open>n\<close> the number of segments
  (one less than the number of offsets), every reference to a segment in every segment,
  and every bytecode of a defined word, is valid for \<open>n\<close> segments: \<open>b \<ge> BOUND_DICTIONARY\<close>
  and \<open>b - BOUND_DICTIONARY < n\<close>. The operand of a literal is not a reference to a
  segment, whatever its value.
\<close>

theorem compiled_offsets_and_references:
  assumes "ForthMachineOf source smax rmax osize = Inr (m :: ('a::len word, 'i) machine)"
  shows "2 \<le> length (bytecodes_offsets m)
       \<and> sorted (bytecodes_offsets m)
       \<and> bytecodes_offsets m ! 0 = 0
       \<and> bytecodes_offsets m ! (length (bytecodes_offsets m) - 1) = int (length (bytecodes m))
       \<and> (\<forall>i < length (bytecodes_offsets m) - 1.
             refs_ok (length (bytecodes_offsets m) - 1) (segment_at m i))
       \<and> list_all (valid_ref (length (bytecodes_offsets m) - 1)) (dictionary_bytecodes m)"
proof -
  from compiled_segments[OF assms] obtain segments :: "bytecode list list" where
    ne: "segments \<noteq> []"
    and b: "bytecodes m = concat segments"
    and o: "bytecodes_offsets m
              = map (\<lambda>k. int (length (concat (take k segments)))) [0 ..< length segments + 1]"
    and r: "list_all (refs_ok (length segments)) segments"
    and d: "list_all (valid_ref (length segments)) (dictionary_bytecodes m)"
    by blast
  have n: "length (bytecodes_offsets m) - 1 = length segments"
    by (simp add: o)
  have n': "length (bytecodes_offsets m) - Suc 0 = length segments"
    by (simp add: o)
  have at: "bytecodes_offsets m ! k = int (length (concat (take k segments)))"
    if "k \<le> length segments" for k
    using that unfolding o by (simp add: nth_append less_Suc_eq_le del: upt_Suc)
  have "sorted (bytecodes_offsets m)"
    unfolding o sorted_map
    by (rule sorted_wrt_mono_rel[OF _ sorted_upt[of 0 "length segments + 1"]])
       (simp add: length_concat_take_mono)
  moreover have "2 \<le> length (bytecodes_offsets m)"
    using ne by (cases segments) (simp_all add: o)
  moreover have "bytecodes_offsets m ! 0 = 0"
    using at[of 0] by simp
  moreover have "bytecodes_offsets m ! (length (bytecodes_offsets m) - 1) = int (length (bytecodes m))"
    unfolding n using at[of "length segments"] by (simp add: b)
  moreover have "refs_ok (length (bytecodes_offsets m) - 1) (segment_at m i)"
    if "i < length (bytecodes_offsets m) - 1" for i
  proof -
    from that have i: "i < length segments" unfolding n .
    have "segment_at m i = segments ! i"
      unfolding segment_at_def
      using at[of i] at[of "i + 1"] i slice_of_concat[OF i] length_concat_take_mono[of i "Suc i" segments]
      by (simp add: b nat_diff_distrib' flip: of_nat_diff)
    then show ?thesis
      using r i by (simp add: n' list_all_length)
  qed
  ultimately show ?thesis using d by (simp add: n')
qed

lemma if_then_compiled:
  "ForthMachineOf ''0 if then'' 1024 1024 1024
     = Inr (reset (loaded [0, 0, CODE_IF, 60] [0, 4, 4] [] []) :: (64 word, unit) machine)"
  apply (simp add: source_eval loaded_def reset_def)
  apply ((subst parse.simps, simp add: compile_eval scan_if.simps)+)
  done

theorem compiled_offsets_witness:
  "ForthMachineOf ''0 if then'' 1024 1024 1024
     = Inr (reset (loaded [0, 0, CODE_IF, 60] [0, 4, 4] [] []) :: (64 word, unit) machine)
   \<and> bytecodes_offsets (reset (loaded [0, 0, CODE_IF, 60] [0, 4, 4] [] [])
                          :: (64 word, unit) machine) = [0, 4, 4]
   \<and> sorted (bytecodes_offsets (reset (loaded [0, 0, CODE_IF, 60] [0, 4, 4] [] [])
                                   :: (64 word, unit) machine))
   \<and> refs_ok 2 (segment_at (reset (loaded [0, 0, CODE_IF, 60] [0, 4, 4] [] [])
                                :: (64 word, unit) machine) 0)
   \<and> refs_ok 2 (segment_at (reset (loaded [0, 0, CODE_IF, 60] [0, 4, 4] [] [])
                                :: (64 word, unit) machine) 1)
   \<and> segment_at (reset (loaded [0, 0, CODE_IF, 60] [0, 4, 4] [] [])
                      :: (64 word, unit) machine) 0 = [0, 0, CODE_IF, 60]
   \<and> segment_at (reset (loaded [0, 0, CODE_IF, 60] [0, 4, 4] [] [])
                      :: (64 word, unit) machine) 1 = []"
proof -
  let ?m = "reset (loaded [0, 0, CODE_IF, 60] [0, 4, 4] [] []) :: (64 word, unit) machine"
  note t = compiled_offsets_and_references[OF if_then_compiled]
  have o: "bytecodes_offsets ?m = [0, 4, 4]" "bytecodes ?m = [0, 0, CODE_IF, 60]"
    by (simp_all add: reset_def loaded_def)
  have "length (bytecodes_offsets ?m) - 1 = 2" by (simp add: o)
  with t have s: "sorted (bytecodes_offsets ?m)" and r: "\<forall>i<2. refs_ok 2 (segment_at ?m i)"
    by simp_all
  from r have r0: "refs_ok 2 (segment_at ?m 0)" and r1: "refs_ok 2 (segment_at ?m 1)"
    by simp_all
  have g: "segment_at ?m 0 = [0, 0, CODE_IF, 60]" "segment_at ?m 1 = []"
    by (simp_all add: segment_at_def o)
  show ?thesis using if_then_compiled o(1) s r0 r1 g by blast
qed

text \<open>
  The body of \<^verbatim>\<open>0 if then\<close> is empty, and its offsets are 0, 4, 4: not strictly
  increasing.
\<close>

theorem empty_body_repeats_offset:
  "map_option bytecodes_offsets (started ''0 if then'' :: (64 word, unit) machine option)
     = Some [0, 4, 4]"
  by (simp add: started_def if_then_compiled)
     (simp add: loaded_def reset_def machine_begin_def returned_def bytecodes_pointer_push_def
        make_outputs_def)

text \<open>
  Claim C5. When the engine executes \<^verbatim>\<open>halt\<close>, it returns at once with
  \<open>current_error = user_halt\<close>, \<open>is_ready = false\<close>, an empty recursion stack and an
  empty do-loop stack (both depths 0), and \<open>recursion_target_depth\<close> cut down to its
  bottom entry, the sentinel that \<^verbatim>\<open>begin\<close> pushed.
\<close>

theorem halt_empties_the_stacks:
  fixes m :: "('a::len word, 'i) machine"
  assumes "recursion_current_depth m \<noteq> target"
    and "executes m CODE_HALT"
    and "recursion_target_depth m \<noteq> []"
  shows "\<exists>m'. internal_run (Suc fuel) single_step target m = Some (Returned m')
           \<and> current_error m' = user_halt \<and> \<not> is_ready m'
           \<and> frames m' = [] \<and> recursion_current_depth m' = 0
           \<and> do_frames m' = [] \<and> do_current_depth m' = 0
           \<and> recursion_target_depth m' = [last (recursion_target_depth m)]"
proof -
  have "dispatch single_step CODE_HALT (fetched m) = op_halt (fetched m)"
    by (simp add: dispatch_builtin exec_builtin_def CODE_defs word_sless_alt word_sle_eq op_halt_def)
  then have "internal_run (Suc fuel) single_step target m = Some (Returned
      ((fetched m)\<lparr>is_ready := False, frames := [],
          recursion_target_depth := drop (length (recursion_target_depth m) - 1) (recursion_target_depth m),
          do_frames := [], current_error := user_halt,
          count_instructions := count_instructions (fetched m) + 1\<rparr>))"
    using transition_instruction[OF assms(1) executes_segment[OF assms(2)], of single_step]
      executes_instruction[OF assms(2), of single_step]
    by (simp add: internal_run_def op_halt_def)
  moreover have "drop (length (recursion_target_depth m) - 1) (recursion_target_depth m)
                   = [last (recursion_target_depth m)]"
    using assms(3) by (rule drop_to_last)
  ultimately show ?thesis
    by (simp add: recursion_current_depth_def do_current_depth_def)
qed

theorem halt_empties_the_stacks_witness:
  "recursion_current_depth (loaded [0, 1, CODE_HALT, 0, 2] [0, 5] [1 :: 64 word] [(0, 2)]) \<noteq> 0
   \<and> executes (loaded [0, 1, CODE_HALT, 0, 2] [0, 5] [1 :: 64 word] [(0, 2)]) CODE_HALT
   \<and> recursion_target_depth (loaded [0, 1, CODE_HALT, 0, 2] [0, 5] [1 :: 64 word] [(0, 2)]) = [0]
   \<and> (\<exists>m'. internal_run 1 False 0 (loaded [0, 1, CODE_HALT, 0, 2] [0, 5] [1 :: 64 word] [(0, 2)])
               = Some (Returned m')
             \<and> current_error m' = user_halt \<and> \<not> is_ready m' \<and> frames m' = []
             \<and> do_frames m' = [] \<and> recursion_target_depth m' = [0])"
  using halt_empties_the_stacks[of "loaded [0, 1, CODE_HALT, 0, 2] [0, 5] [1 :: 64 word] [(0, 2)]"
          0 0 False]
  by (simp add: loaded_eval)

text \<open>
  Claim C6. When the engine executes \<^verbatim>\<open>/\<close>, \<^verbatim>\<open>mod\<close> or \<^verbatim>\<open>/mod\<close> with a zero on top of
  at least two cells, it returns at once with \<open>current_error = division_by_zero\<close>: no
  further instruction is executed and none is counted. \<^verbatim>\<open>/\<close> and \<^verbatim>\<open>mod\<close> have popped
  the divisor by then, \<^verbatim>\<open>/mod\<close> leaves both cells.
\<close>

theorem division_by_zero_stops:
  fixes m :: "('a::len word, 'i) machine"
  assumes "recursion_current_depth m \<noteq> target"
    and "executes m bytecode"
    and "bytecode = CODE_DIV \<or> bytecode = CODE_MOD \<or> bytecode = CODE_DIVMOD"
    and "stack m = 0 # a # rest"
  shows "internal_run (Suc fuel) single_step target m =
           Some (Returned ((fetched m)\<lparr>stack := (if bytecode = CODE_DIVMOD then 0 # a # rest else a # rest),
                                      current_error := division_by_zero\<rparr>))"
proof -
  have "dispatch single_step bytecode (fetched m) =
          Return ((fetched m)\<lparr>stack := (if bytecode = CODE_DIVMOD then 0 # a # rest else a # rest),
                               current_error := division_by_zero\<rparr>)"
    using assms(3,4)
    by (auto simp: dispatch_builtin exec_builtin_def CODE_defs word_sless_alt word_sle_eq
                   op_div_def op_mod_def op_divmod_def raise_error_def)
  then show ?thesis
    using transition_instruction[OF assms(1) executes_segment[OF assms(2)], of single_step]
      executes_instruction[OF assms(2), of single_step]
    by (simp add: internal_run_def)
qed

theorem division_by_zero_stops_witness:
  "recursion_current_depth (loaded [0, 1, 0, 0, CODE_DIV] [0, 5] [0, 1 :: 64 word] [(0, 4)]) \<noteq> 0
   \<and> executes (loaded [0, 1, 0, 0, CODE_DIV] [0, 5] [0, 1 :: 64 word] [(0, 4)]) CODE_DIV
   \<and> internal_run 1 True 0 (loaded [0, 1, 0, 0, CODE_DIV] [0, 5] [0, 1 :: 64 word] [(0, 4)])
       = Some (Returned ((loaded [0, 1, 0, 0, CODE_DIV] [0, 5] [1] [(0, 5)])
                           \<lparr>current_error := division_by_zero\<rparr>))"
  using division_by_zero_stops[of "loaded [0, 1, 0, 0, CODE_DIV] [0, 5] [0, 1 :: 64 word] [(0, 4)]"
          0 CODE_DIV 1 "[]" 0 True]
  by (simp add: loaded_eval)

subsection \<open>Starting a run\<close>











subsection \<open>A counted loop\<close>

lemma do_loop_compiled:
  "ForthMachineOf ''0 10 0 do i + loop'' 1024 1024 1024
     = Inr (reset (loaded [0, 0, 0, 10, 0, 0, CODE_DO, 60, CODE_I, CODE_ADD] [0, 8, 10] [] []
              :: (64 word, unit) machine))"
  apply (simp add: source_eval loaded_def reset_def)
  apply ((subst parse.simps, simp add: compile_eval scan_do.simps)+)
  done

lemma do_loop_started:
  "started ''0 10 0 do i + loop''
     = Some (loaded [0, 0, 0, 10, 0, 0, CODE_DO, 60, CODE_I, CODE_ADD] [0, 8, 10] [] [(0, 0)]
              :: (64 word, unit) machine)"
  by (simp add: started_def do_loop_compiled)
     (simp add: loaded_def reset_def machine_begin_def returned_def bytecodes_pointer_push_def
        make_outputs_def)

lemma do_loop_result:
  "map_option stack (final (run_source ''0 10 0 do i + loop'' 100)) = Some [45 :: 64 word]
   \<and> map_option current_error
         (final (run_source ''0 10 0 do i + loop'' 100
                   :: compile_error + (64 word, unit) machine engine_result option)) = Some none"
  apply (simp add: run_source_def do_loop_compiled)
  apply (simp add: loaded_def final_def run_eval eval_nat_numeral del: run_from.simps)
  apply ((subst run_from.simps, simp add: run_eval del: run_from.simps)+)
  done

lemma do_loop_trace:
  "map (\<lambda>m. (hd (frames m), do_i (hd (do_frames m))))
       (filter (\<lambda>m. executes m CODE_I)
          (visited ''0 10 0 do i + loop'' 100 :: (64 word, unit) machine list))
     = [((1, 0), 0), ((1, 0), 1), ((1, 0), 2), ((1, 0), 3), ((1, 0), 4),
        ((1, 0), 5), ((1, 0), 6), ((1, 0), 7), ((1, 0), 8), ((1, 0), 9)]
   \<and> map (\<lambda>m. (do_i (hd (do_frames m)), do_stop (hd (do_frames m))))
       (filter ends_do_loop
          (visited ''0 10 0 do i + loop'' 100 :: (64 word, unit) machine list))
     = [(10, 10)]"
  apply (simp add: visited_def do_loop_started)
  apply (simp add: loaded_def run_eval eval_nat_numeral del: visited_from.simps)
  apply ((subst visited_from.simps, simp add: run_eval del: visited_from.simps)+)
  done

text \<open>
  Claim C9. The program \<^verbatim>\<open>0 10 0 do i + loop\<close>, compiled with the default capacities
  and run, returns with no error and the stack \<open>[45]\<close>. On the way the engine enters
  the body segment (segment 1, at its first bytecode, which is \<^verbatim>\<open>i\<close>) ten times, with
  the loop index 0, 1, ..., 9 in turn, and it ends the loop once, when the index 10 has
  reached the stop value 10.
\<close>

theorem do_loop_adds_up_to_45:
  "map_option stack (final (run_source ''0 10 0 do i + loop'' 100)) = Some [45 :: 64 word]
   \<and> map_option current_error
         (final (run_source ''0 10 0 do i + loop'' 100
                   :: compile_error + (64 word, unit) machine engine_result option)) = Some none
   \<and> map (\<lambda>m. (hd (frames m), do_i (hd (do_frames m))))
       (filter (\<lambda>m. executes m CODE_I)
          (visited ''0 10 0 do i + loop'' 100 :: (64 word, unit) machine list))
     = [((1, 0), 0), ((1, 0), 1), ((1, 0), 2), ((1, 0), 3), ((1, 0), 4),
        ((1, 0), 5), ((1, 0), 6), ((1, 0), 7), ((1, 0), 8), ((1, 0), 9)]
   \<and> map (\<lambda>m. (do_i (hd (do_frames m)), do_stop (hd (do_frames m))))
       (filter ends_do_loop
          (visited ''0 10 0 do i + loop'' 100 :: (64 word, unit) machine list))
     = [(10, 10)]"
  using do_loop_result do_loop_trace by simp

subsection \<open>Integer literals\<close>

lemma digit_is_no_space_or_sign:
  assumes "digit_of base c \<noteq> None"
  shows "\<not> is_space c" "c \<noteq> CHR ''-''" "c \<noteq> CHR ''+''"
  using assms by (auto simp: digit_of_def is_space_def Let_def split: if_splits)

lemma leading_digits_first:
  "leading_digits base s \<noteq> [] \<Longrightarrow> s \<noteq> [] \<and> digit_of base (hd s) \<noteq> None"
  by (cases s) (auto split: option.splits)

lemma stoul_of_digits:
  assumes "leading_digits base s \<noteq> []"
    and "digits_value base (leading_digits base s) < 2 ^ 64"
    and "base = 16 \<longrightarrow> \<not> (3 \<le> length s \<and> s ! 0 = CHR ''0''
                              \<and> (s ! 1 = CHR ''x'' \<or> s ! 1 = CHR ''X'')
                              \<and> digit_of 16 (s ! 2) \<noteq> None)"
  shows "stoul s base = Stoul_value (of_nat (digits_value base (leading_digits base s)))"
proof -
  from leading_digits_first[OF assms(1)] obtain c cs where s: "s = c # cs"
    and c: "digit_of base c \<noteq> None"
    by (cases s) auto
  have d: "dropWhile is_space s = s"
    using digit_is_no_space_or_sign(1)[OF c] by (simp add: s)
  have h: "hd s \<noteq> CHR ''-''" "hd s \<noteq> CHR ''+''"
    using digit_is_no_space_or_sign(2,3)[OF c] by (simp_all add: s)
  show ?thesis
    using assms h unfolding stoul_def d Let_def
    by (auto simp: s)
qed

lemma is_integer_numeric_prefix:
  assumes "numeric_prefix word = Some v" and "v < 2 ^ 64" and "\<not> second_hex_prefix word"
  shows "is_integer word = Inr (Some (of_nat v))"
proof (cases "take 2 word = ''0x''")
  case True
  then have len: "2 \<le> length word"
    by (cases word; cases "tl word") auto
  have ds: "leading_digits 16 (drop 2 word) \<noteq> []"
    and v: "v = digits_value 16 (leading_digits 16 (drop 2 word))"
    using assms(1) True by (auto simp: numeric_prefix_def split: if_splits)
  have "\<not> (3 \<le> length (drop 2 word) \<and> drop 2 word ! 0 = CHR ''0''
            \<and> (drop 2 word ! 1 = CHR ''x'' \<or> drop 2 word ! 1 = CHR ''X'')
            \<and> digit_of 16 (drop 2 word ! 2) \<noteq> None)"
    using assms(3) True by (auto simp: second_hex_prefix_def)
  then have "stoul (drop 2 word) 16 = Stoul_value (of_nat v)"
    using stoul_of_digits[OF ds, folded v] assms(2) by blast
  then show ?thesis using True len by (simp add: is_integer_def)
next
  case False
  have ds: "leading_digits 10 word \<noteq> []"
    and v: "v = digits_value 10 (leading_digits 10 word)"
    using assms(1) False by (auto simp: numeric_prefix_def split: if_splits)
  have "stoul word 10 = Stoul_value (of_nat v)"
    using stoul_of_digits[OF ds, folded v] assms(2) by simp
  then show ?thesis using False by (simp add: is_integer_def)
qed

text \<open>
  Claim C10, as the code has it. For a token that is no comment opener, declaration,
  control word, known name or builtin: when it begins with decimal digits and not with
  \<open>0x\<close>, or with \<open>0x\<close> and hexadecimal digits (not \<open>0x\<close> again), and the number that these
  digits write is below \<open>2^64\<close>, \<^verbatim>\<open>parse\<close> emits \<open>CODE_LITERAL\<close> and that number cut to
  the 32 bits of a bytecode, and goes on with the next token; what follows the digits in
  the token is ignored, as in \<open>3.14\<close> and \<open>5abc\<close>.
\<close>

theorem literal_fallback_takes_numeric_prefix:
  fixes m :: "('a::len word, 'i) machine"
  assumes "pos < stop" and "reaches_literal_fallback m (tokenized ! pos)"
    and "numeric_prefix (tokenized ! pos) = Some v" and "v < 2 ^ 64"
    and "\<not> second_hex_prefix (tokenized ! pos)"
  shows "parse defn tokenized pos stop bcodes dictionary exitdepth dodepth m
           = parse defn tokenized (pos + 1) stop (bcodes @ [CODE_LITERAL, of_nat v])
               dictionary exitdepth dodepth m"
proof -
  have plain: "parse_plain defn tokenized pos stop bcodes exitdepth dodepth m
                 = Inr (pos + 1, bcodes @ [CODE_LITERAL, ucast (of_nat v :: 64 word)], m)"
    using assms(2) is_integer_numeric_prefix[OF assms(3,4,5)]
    by (simp add: parse_plain_def reaches_literal_fallback_def Let_def)
  have cut: "(ucast (of_nat v :: 64 word) :: 32 word) = of_nat v"
    by (simp add: ucast_eq unsigned_of_nat take_bit_of_nat word_of_nat_eq_iff min_def)
  show ?thesis
    using assms(1,2)
    by (subst parse.simps) (simp add: plain cut reaches_literal_fallback_def)
qed


lemmas literal_eval =
  reaches_literal_fallback_def numeric_prefix_def second_hex_prefix_def loaded_def compile_eval

theorem literal_fallback_witness:
  "(0 :: nat) < 2
   \<and> reaches_literal_fallback (loaded [] [] [] [] :: (64 word, unit) machine) ([''5abc'', ''3.14''] ! 0)
   \<and> numeric_prefix ([''5abc'', ''3.14''] ! 0) = Some 5 \<and> (5 :: nat) < 2 ^ 64
   \<and> \<not> second_hex_prefix ([''5abc'', ''3.14''] ! 0)
   \<and> reaches_literal_fallback (loaded [] [] [] [] :: (64 word, unit) machine) ([''5abc'', ''3.14''] ! 1)
   \<and> numeric_prefix ([''5abc'', ''3.14''] ! 1) = Some 3
   \<and> \<not> second_hex_prefix ([''5abc'', ''3.14''] ! 1)
   \<and> parse [] [''5abc'', ''3.14''] 0 2 [] [[]] 0 0 (loaded [] [] [] [] :: (64 word, unit) machine)
       = Inr ([CODE_LITERAL, 5, CODE_LITERAL, 3], [[]], loaded [] [] [] [])"
proof -
  have a: "parse [] [''5abc'', ''3.14''] 0 2 [] [[]] 0 0 (loaded [] [] [] [] :: (64 word, unit) machine)
             = parse [] [''5abc'', ''3.14''] (0 + 1) 2 ([] @ [CODE_LITERAL, of_nat 5]) [[]] 0 0
                 (loaded [] [] [] [])"
    by (rule literal_fallback_takes_numeric_prefix) (simp_all add: literal_eval)
  have b: "parse [] [''5abc'', ''3.14''] 1 2 [CODE_LITERAL, 5] [[]] 0 0
               (loaded [] [] [] [] :: (64 word, unit) machine)
             = parse [] [''5abc'', ''3.14''] (1 + 1) 2 ([CODE_LITERAL, 5] @ [CODE_LITERAL, of_nat 3])
                 [[]] 0 0 (loaded [] [] [] [])"
    by (rule literal_fallback_takes_numeric_prefix) (simp_all add: literal_eval)
  have c: "parse [] [''5abc'', ''3.14''] 2 2 [CODE_LITERAL, 5, CODE_LITERAL, 3] [[]] 0 0
               (loaded [] [] [] [] :: (64 word, unit) machine)
             = Inr ([CODE_LITERAL, 5, CODE_LITERAL, 3], [[]], loaded [] [] [] [])"
    by (subst parse.simps) simp
  have p: "parse [] [''5abc'', ''3.14''] 0 2 [] [[]] 0 0 (loaded [] [] [] [] :: (64 word, unit) machine)
             = Inr ([CODE_LITERAL, 5, CODE_LITERAL, 3], [[]], loaded [] [] [] [])"
    using a b c by (simp add: numeral_2_eq_2)
  have h: "(0 :: nat) < 2
   \<and> reaches_literal_fallback (loaded [] [] [] [] :: (64 word, unit) machine) ([''5abc'', ''3.14''] ! 0)
   \<and> numeric_prefix ([''5abc'', ''3.14''] ! 0) = Some 5 \<and> (5 :: nat) < 2 ^ 64
   \<and> \<not> second_hex_prefix ([''5abc'', ''3.14''] ! 0)
   \<and> reaches_literal_fallback (loaded [] [] [] [] :: (64 word, unit) machine) ([''5abc'', ''3.14''] ! 1)
   \<and> numeric_prefix ([''5abc'', ''3.14''] ! 1) = Some 3
   \<and> \<not> second_hex_prefix ([''5abc'', ''3.14''] ! 1)"
    by (simp add: literal_eval)
  show ?thesis
    using h p by blast
qed

text \<open>
  \<open>0xz\<close> begins with the decimal digit 0 and is rejected as an unrecognized word; the
  literal of \<open>4294967296\<close> is 0, the number cut to 32 bits; \<open>0x0x1\<close> begins with \<open>0x\<close> and
  the hexadecimal digit 0, and its literal is 1; and a number of twenty digits ends the
  compilation with \<^verbatim>\<open>std::out_of_range\<close>, which \<^verbatim>\<open>is_integer\<close> does not catch.
\<close>

theorem literal_rejected_or_cut:
  "ForthMachineOf ''0xz'' 1024 1024 1024
     = (Inl (Invalid_argument ''unrecognized word or wrong context for word'')
          :: compile_error + (64 word, unit) machine)
   \<and> map_option bytecodes (started ''4294967296'' :: (64 word, unit) machine option)
       = Some [CODE_LITERAL, 0]
   \<and> map_option bytecodes (started ''0x0x1'' :: (64 word, unit) machine option)
       = Some [CODE_LITERAL, 1]
   \<and> ForthMachineOf ''99999999999999999999'' 1024 1024 1024
     = (Inl Out_of_range :: compile_error + (64 word, unit) machine)"
  apply (simp add: source_eval)
  apply (intro conjI)
     apply ((subst parse.simps, simp add: compile_eval)+)[1]
    apply ((subst parse.simps, simp add: compile_eval)+)[1]
    apply (simp add: returned_def machine_begin_def reset_def bytecodes_pointer_push_def make_outputs_def)
   apply ((subst parse.simps, simp add: compile_eval)+)[1]
   apply (simp add: returned_def machine_begin_def reset_def bytecodes_pointer_push_def make_outputs_def)
  apply ((subst parse.simps, simp add: compile_eval)+)[1]
  done

end
